theory Spec2Isabelle
  imports Complex_Main "HOL-Library.Sublist"
begin

section \<open>JavaScript values\<close>

text \<open>
  The values a handler returns and a template is rendered with. A number is a double:
  a finite value, \<open>NaN\<close> or an infinity. An object is the list of its own data
  properties together with its prototype: none (\<open>Object.create(null)\<close>), or the one of
  the named class (\<open>Object\<close> for an object literal). Every other value of the runtime
  (an array, a function, a prototype object) is a \<open>JOther\<close>, known by a name only.
\<close>

datatype number = Finite real | NaN | PlusInfinity | MinusInfinity

datatype proto = NoPrototype | Prototype string

datatype jsval =
    JUndefined
  | JNull
  | JBool bool
  | JNum number
  | JStr string
  | JObj proto "(string \<times> jsval) list"
  | JOther string

text \<open>What a JavaScript expression throws: a TypeError, or a value thrown by the runtime.\<close>

datatype js_error = TypeError | Thrown jsval

text \<open>Truthiness, as \<open>||\<close>, \<open>!\<close> and \<open>if\<close> read a value.\<close>

fun number_truthy :: "number \<Rightarrow> bool" where
  "number_truthy (Finite x) = (x \<noteq> 0)"
| "number_truthy NaN = False"
| "number_truthy PlusInfinity = True"
| "number_truthy MinusInfinity = True"

fun truthy :: "jsval \<Rightarrow> bool" where
  "truthy JUndefined = False"
| "truthy JNull = False"
| "truthy (JBool b) = b"
| "truthy (JNum n) = number_truthy n"
| "truthy (JStr s) = (s \<noteq> [])"
| "truthy (JObj pr kvs) = True"
| "truthy (JOther x) = True"

text \<open>\<open>hay.indexOf(needle)\<close>: the first position at which \<open>needle\<close> occurs, or -1.\<close>

fun indexOf :: "string \<Rightarrow> string \<Rightarrow> int" where
  "indexOf [] needle = (if needle = [] then 0 else - 1)"
| "indexOf (c # hay) needle =
     (if prefix needle (c # hay) then 0
      else (let i = indexOf hay needle in if i < 0 then - 1 else i + 1))"

section \<open>The platform\<close>

text \<open>
  What the runtime and its libraries do, none of it code of this repository, is a
  parameter:
  \<^item> \<open>Path.join\<close> and \<open>Path.extname\<close>;
  \<^item> \<open>JSON.stringify\<close>, which yields a text or \<open>undefined\<close> (\<open>None\<close>), or throws;
  \<^item> the conversion of a number and of an object to a string (the latter may throw);
  \<^item> \<open>inherited\<close>: what reading a key yields that is not an own data property of the
    value, through the prototype chain of an object or the wrapper of a primitive value
    (the length of a string, \<open>constructor\<close>, \<open>__proto__\<close>); the read may throw;
  \<^item> the table of \<open>mime.json\<close>;
  \<^item> the file system as the calls see it: \<open>viewFile\<close> is \<open>FS.existsSync\<close> followed by
    \<open>FS.readFileSync\<close> on a view path (the path does not exist, or it is read, or it
    exists and reading it throws); \<open>statSync\<close> is \<open>None\<close> where \<open>FS.statSync\<close>
    throws; \<open>readStream\<close> is what \<open>FS.createReadStream\<close> piped into the response
    delivers and how it ends: the response reports \<open>end\<close>, or the stream or the response
    reports an error (or the stream cannot be created), or neither is reported.
\<close>

datatype view_read = Missing | Content string | ReadFails jsval

datatype stream_end = StreamEnded | StreamFailed jsval | StreamSilent

record stats =
  isFile :: bool
  stat_size :: nat

record platform =
  Path_join :: "string \<Rightarrow> string \<Rightarrow> string"
  Path_extname :: "string \<Rightarrow> string"
  JSON_stringify :: "jsval \<Rightarrow> js_error + string option"
  Number_toString :: "number \<Rightarrow> string"
  Object_toString :: "jsval \<Rightarrow> js_error + string"
  inherited :: "jsval \<Rightarrow> string \<Rightarrow> js_error + jsval"
  mimeMap :: "string \<rightharpoonup> string"
  viewFile :: "string \<Rightarrow> view_read"
  statSync :: "string \<rightharpoonup> stats"
  readStream :: "string \<Rightarrow> string \<times> stream_end"

text \<open>
  \<open>node[key]\<close>: reading a property of \<open>null\<close> or \<open>undefined\<close> throws a TypeError; an
  own property of an object is read from the object; every other read is the runtime's,
  and an object without prototype has nothing else to read.
\<close>

fun js_get :: "platform \<Rightarrow> jsval \<Rightarrow> string \<Rightarrow> js_error + jsval" where
  "js_get pf JUndefined key = Inl TypeError"
| "js_get pf JNull key = Inl TypeError"
| "js_get pf (JObj pr kvs) key =
     (case map_of kvs key of
        Some v \<Rightarrow> Inr v
      | None \<Rightarrow>
          (case pr of
             NoPrototype \<Rightarrow> Inr JUndefined
           | Prototype c \<Rightarrow> inherited pf (JObj pr kvs) key))"
| "js_get pf (JBool b) key = inherited pf (JBool b) key"
| "js_get pf (JNum n) key = inherited pf (JNum n) key"
| "js_get pf (JStr s) key = inherited pf (JStr s) key"
| "js_get pf (JOther x) key = inherited pf (JOther x) key"

text \<open>The string a value becomes where a replacement text or a template string needs one.\<close>

fun ToString :: "platform \<Rightarrow> jsval \<Rightarrow> js_error + string" where
  "ToString pf JUndefined = Inr ''undefined''"
| "ToString pf JNull = Inr ''null''"
| "ToString pf (JBool b) = Inr (if b then ''true'' else ''false'')"
| "ToString pf (JNum n) = Inr (Number_toString pf n)"
| "ToString pf (JStr s) = Inr s"
| "ToString pf (JObj pr kvs) = Object_toString pf (JObj pr kvs)"
| "ToString pf (JOther x) = Object_toString pf (JOther x)"

section \<open>The response sink\<close>

text \<open>
  The part of \<open>ServerResponse\<close> the dispatcher reads and writes. Writing a chunk or
  ending the response sends the header section. \<open>setHeader\<close> is an update of the
  header table and the status code is kept as it is assigned; whether the runtime refuses
  a header once the headers are sent, or a status code when it sends them, is outside the
  model.
\<close>

record response =
  headerSent :: bool
  statusCode :: number
  headers :: "string \<rightharpoonup> string"
  body :: string
  ended :: bool

definition newResponse :: response where
  "newResponse =
     \<lparr>headerSent = False, statusCode = Finite 200, headers = Map.empty, body = [], ended = False\<rparr>"

definition setHeader :: "string \<Rightarrow> string \<Rightarrow> response \<Rightarrow> response" where
  "setHeader name v r = r\<lparr>headers := (headers r)(name \<mapsto> v)\<rparr>"

definition res_write :: "string \<Rightarrow> response \<Rightarrow> response" where
  "res_write chunk r = r\<lparr>headerSent := True, body := body r @ chunk\<rparr>"

definition res_end :: "response \<Rightarrow> response" where
  "res_end r = r\<lparr>headerSent := True, ended := True\<rparr>"

section \<open>Requests, handler outcomes and routes\<close>

record request =
  req_method :: string
  req_path :: string
  req_query :: "(string \<times> string) list"

text \<open>
  An instance of \<open>ExpectedError\<close> or of a subclass of it, with the name of its class,
  its \<open>message\<close> and its \<open>statusCode\<close> (a string and a number, as the constructor
  declares them) and whatever other own properties it has; the
  \<open>NotFoundError(message, path)\<close> that the dispatcher creates, whose status code is
  404; anything else that is thrown or rejected is \<open>OtherError\<close>.
\<close>

datatype error_value =
    ExpectedError string string number "(string \<times> jsval) list"
  | NotFoundError string string
  | OtherError jsval

text \<open>
  What a middleware hands back: \<open>Response | Object | void\<close> (void is the object
  \<open>undefined\<close>), or the request object itself, which is the pass-through sentinel.
  It is returned directly, or through a promise that is fulfilled, rejected or never
  settled; or the call throws.
\<close>

datatype result = Response "response \<Rightarrow> response" | Object jsval

datatype returned = Req | Val result

datatype resolvable = Plain returned | Fulfilled returned | Rejected error_value | Pending

datatype completion = Throws error_value | Returns resolvable

text \<open>The outcomes on which \<open>next\<close> goes on to the following route.\<close>

fun is_pass :: "completion \<Rightarrow> bool" where
  "is_pass (Returns (Plain Req)) = True"
| "is_pass (Returns (Fulfilled Req)) = True"
| "is_pass c = False"

type_synonym middleware = "request \<Rightarrow> response \<Rightarrow> completion \<times> response"

record routeOptions =
  route_method :: "string option"
  path :: string
  extendable :: bool
  middleware :: middleware

record route = routeOptions +
  pathWithEndingSlash :: string

record server =
  routes :: "route list"
  views :: string
  errorViewsFolder :: string

subsection \<open>Registration\<close>

definition add :: "routeOptions \<Rightarrow> server \<Rightarrow> server" where
  "add options srv =
     (let p = path options;
          route =
            (if p = ''/'' then
               \<lparr>route_method = route_method options, path = p, extendable = extendable options,
                middleware = middleware options, pathWithEndingSlash = p\<rparr>
             else if p \<noteq> [] \<and> last p = CHR ''/'' then
               \<lparr>route_method = route_method options, path = take (length p - 1) p,
                extendable = extendable options, middleware = middleware options,
                pathWithEndingSlash = p\<rparr>
             else
               \<lparr>route_method = route_method options, path = p, extendable = extendable options,
                middleware = middleware options, pathWithEndingSlash = p @ ''/''\<rparr>)
      in srv\<lparr>routes := routes srv @ [route]\<rparr>)"

definition use :: "string \<Rightarrow> middleware \<Rightarrow> server \<Rightarrow> server" where
  "use p mw srv = add \<lparr>route_method = None, path = p, extendable = True, middleware = mw\<rparr> srv"

definition get :: "string \<Rightarrow> middleware \<Rightarrow> server \<Rightarrow> server" where
  "get p mw srv = add \<lparr>route_method = Some ''GET'', path = p, extendable = False, middleware = mw\<rparr> srv"

definition post :: "string \<Rightarrow> middleware \<Rightarrow> server \<Rightarrow> server" where
  "post p mw srv = add \<lparr>route_method = Some ''POST'', path = p, extendable = False, middleware = mw\<rparr> srv"

subsection \<open>The match test of the dispatch loop\<close>

text \<open>
  The condition under which \<open>next\<close> moves on without invoking the route:
  \<open>(method && method !== req.method) || (pathname !== route.path &&
  (!route.extendable || pathname.indexOf(route.pathWithEndingSlash) !== 0))\<close>.
\<close>

definition skipped :: "route \<Rightarrow> string \<Rightarrow> string \<Rightarrow> bool" where
  "skipped route reqMethod pathname =
     ((case route_method route of None \<Rightarrow> False | Some m \<Rightarrow> m \<noteq> [] \<and> m \<noteq> reqMethod) \<or>
      (pathname \<noteq> path route \<and>
       (\<not> extendable route \<or> indexOf pathname (pathWithEndingSlash route) \<noteq> 0)))"

section \<open>The state of one dispatch\<close>

text \<open>
  What handling a request reads and changes: the server's template cache (a key is absent,
  or holds a template, or holds \<open>undefined\<close>), the response, and an exception that
  nothing caught. Three fields are ghost state, kept to state properties: the view paths
  probed on the file system, the handlers invoked (route index, the request as the
  handler saw it, the response it was given, what it handed back, the response as it
  left it), and the calls of
  \<open>_handleResult\<close> and \<open>_handleError\<close> with their path argument.
\<close>

record invocation =
  inv_index :: nat
  inv_request :: request
  inv_before :: response
  inv_completion :: completion
  inv_response :: response

datatype handled_call = HandleResult string result | HandleError string error_value

record world =
  templateCache :: "string \<rightharpoonup> string option"
  res :: response
  uncaught :: "js_error option"
  fsReads :: "string list"
  invoked :: "invocation list"
  handled :: "handled_call list"

definition newWorld :: world where
  "newWorld = \<lparr>templateCache = Map.empty, res = newResponse, uncaught = None,
     fsReads = [], invoked = [], handled = []\<rparr>"

section \<open>Template rendering\<close>

text \<open>The character class \<open>[$\w\d.-]\<close> of the placeholder pattern.\<close>

definition key_char :: "char \<Rightarrow> bool" where
  "key_char c = (c \<in> set ''$_.-0123456789abcdefghijklmnopqrstuvwxyzABCDEFGHIJKLMNOPQRSTUVWXYZ'')"

text \<open>\<open>expression.split('.')\<close>\<close>

fun split_dot :: "string \<Rightarrow> string list" where
  "split_dot [] = [[]]"
| "split_dot (c # cs) =
     (if c = CHR ''.'' then [] # split_dot cs
      else (case split_dot cs of [] \<Rightarrow> [[c]] | k # ks \<Rightarrow> (c # k) # ks))"

text \<open>
  The loop over the keys in the replace callback: \<open>None\<close> when a step yields
  \<open>undefined\<close> (the callback returns the token text), the value reached otherwise.
\<close>

fun walk :: "platform \<Rightarrow> jsval \<Rightarrow> string list \<Rightarrow> js_error + jsval option" where
  "walk pf node [] = Inr (Some node)"
| "walk pf node (key # keys) =
     (case js_get pf node key of
        Inl e \<Rightarrow> Inl e
      | Inr JUndefined \<Rightarrow> Inr None
      | Inr v \<Rightarrow> walk pf v keys)"

definition substitute :: "platform \<Rightarrow> jsval \<Rightarrow> string \<Rightarrow> string \<Rightarrow> js_error + string" where
  "substitute pf data text expression =
     (case walk pf data (split_dot expression) of
        Inl e \<Rightarrow> Inl e
      | Inr None \<Rightarrow> Inr text
      | Inr (Some node) \<Rightarrow> ToString pf node)"

text \<open>
  \<open>template.replace(/\{([$\w\d.-]+)\}/g, callback)\<close>: scanning from the left, a brace
  followed by one or more class characters and a closing brace is a match; the callback
  gets the matched text and the expression, and an exception of the callback ends the
  scan.
\<close>

function replace_tokens :: "(string \<Rightarrow> string \<Rightarrow> js_error + string) \<Rightarrow> string \<Rightarrow> js_error + string" where
  "replace_tokens f [] = Inr []"
| "replace_tokens f (c # cs) =
     (if c = CHR ''{'' \<and> takeWhile key_char cs \<noteq> [] \<and>
         take 1 (dropWhile key_char cs) = ''}''
      then (case f (c # takeWhile key_char cs @ ''}'') (takeWhile key_char cs) of
              Inl e \<Rightarrow> Inl e
            | Inr r \<Rightarrow>
                (case replace_tokens f (drop 1 (dropWhile key_char cs)) of
                   Inl e \<Rightarrow> Inl e
                 | Inr out \<Rightarrow> Inr (r @ out)))
      else (case replace_tokens f cs of Inl e \<Rightarrow> Inl e | Inr out \<Rightarrow> Inr (c # out)))"
  by pat_completeness auto
termination
  by (relation "measure (\<lambda>(f, s). length s)")
     (auto simp: less_Suc_eq_le intro: le_trans [OF diff_le_self length_dropWhile_le])

text \<open>\<open>data = data || Object.create(null)\<close>, then the replacement.\<close>

definition fill :: "platform \<Rightarrow> string \<Rightarrow> jsval \<Rightarrow> world \<Rightarrow> (js_error + string option) \<times> world" where
  "fill pf template data w =
     (case replace_tokens (substitute pf (if truthy data then data else JObj NoPrototype []))
             template of
        Inl e \<Rightarrow> (Inl e, w)
      | Inr html \<Rightarrow> (Inr (Some html), w))"

text \<open>
  \<open>_render(view, data)\<close>: the result is the rendered text, \<open>undefined\<close> (\<open>None\<close>) or
  an exception, together with the state it leaves.
\<close>

definition view_name :: "string \<Rightarrow> string" where
  "view_name view = (if view = ''/'' then view @ ''index'' else view)"

definition render :: "platform \<Rightarrow> server \<Rightarrow> string \<Rightarrow> jsval \<Rightarrow> world \<Rightarrow> (js_error + string option) \<times> world" where
  "render pf srv view0 data w =
     (let view = view_name view0 in
      case templateCache w view of
        Some cached \<Rightarrow>
          (case cached of
             None \<Rightarrow> (Inr None, w)
           | Some template \<Rightarrow> if template = [] then (Inr None, w) else fill pf template data w)
      | None \<Rightarrow>
          (let viewPath = Path_join pf (views srv) (view @ ''.html'');
               w1 = w\<lparr>fsReads := fsReads w @ [viewPath]\<rparr>
           in case viewFile pf viewPath of
                Content template \<Rightarrow>
                  fill pf template data
                    (w1\<lparr>templateCache := (templateCache w1)(view \<mapsto> Some template)\<rparr>)
              | Missing \<Rightarrow> (Inr None, w1\<lparr>templateCache := (templateCache w1)(view \<mapsto> None)\<rparr>)
              | ReadFails e \<Rightarrow> (Inl (Thrown e), w1)))"

section \<open>Result and error handling\<close>

definition handleResult :: "platform \<Rightarrow> server \<Rightarrow> string \<Rightarrow> result \<Rightarrow> world \<Rightarrow> world" where
  "handleResult pf srv pathname result w0 =
     (let w = w0\<lparr>handled := handled w0 @ [HandleResult pathname result]\<rparr> in
      if headerSent (res w) then w
      else case result of
        Response applyTo \<Rightarrow> w\<lparr>res := applyTo (res w)\<rparr>
      | Object v \<Rightarrow>
          (case render pf srv pathname v w of
             (Inl e, w1) \<Rightarrow> w1\<lparr>uncaught := Some e\<rparr>
           | (Inr None, w1) \<Rightarrow>
               (case JSON_stringify pf v of
                  Inl e \<Rightarrow> w1\<lparr>uncaught := Some e\<rparr>
                | Inr None \<Rightarrow> w1\<lparr>res := res_end (res w1)\<rparr>
                | Inr (Some json) \<Rightarrow>
                    if json \<noteq> [] then
                      w1\<lparr>res := res_end (res_write json
                             (setHeader ''Content-Type'' ''application/json'' (res w1)))\<rparr>
                    else w1\<lparr>res := res_end (res w1)\<rparr>)
           | (Inr (Some html), w1) \<Rightarrow>
               w1\<lparr>res := res_end (res_write html (setHeader ''Content-Type'' ''text/html'' (res w1)))\<rparr>))"

text \<open>
  The error object as the data its error view is rendered with: \<open>_handleError\<close> hands
  the object itself to \<open>_render\<close>.
\<close>

fun error_data :: "error_value \<Rightarrow> jsval" where
  "error_data (ExpectedError cls message code others) =
     JObj (Prototype cls)
       ((''message'', JStr message) # (''statusCode'', JNum code) # others)"
| "error_data (NotFoundError message p) =
     JObj (Prototype ''NotFoundError'')
       [(''message'', JStr message), (''statusCode'', JNum (Finite 404)), (''path'', JStr p)]"
| "error_data (OtherError v) = v"

definition errorResponse :: "number \<Rightarrow> string \<Rightarrow> response \<Rightarrow> response" where
  "errorResponse code html r =
     res_end (res_write html (setHeader ''Content-Type'' ''text/html'' (r\<lparr>statusCode := code\<rparr>)))"

definition respondError :: "number \<Rightarrow> string \<Rightarrow> world \<Rightarrow> world" where
  "respondError code html w = w\<lparr>res := errorResponse code html (res w)\<rparr>"

text \<open>\<open>html || message\<close>: the message stands in for \<open>undefined\<close> and for the empty string.\<close>

definition or_else :: "string option \<Rightarrow> string \<Rightarrow> string" where
  "or_else html message =
     (case html of None \<Rightarrow> message | Some h \<Rightarrow> if h \<noteq> [] then h else message)"

text \<open>The name of the error view: \<open>`${this.errorViewsFolder}/${statusCode}`\<close>.\<close>

definition error_view :: "platform \<Rightarrow> server \<Rightarrow> number \<Rightarrow> string" where
  "error_view pf srv code = errorViewsFolder srv @ ''/'' @ Number_toString pf code"

definition renderError :: "platform \<Rightarrow> server \<Rightarrow> error_value \<Rightarrow> number \<Rightarrow> string \<Rightarrow> world \<Rightarrow> world" where
  "renderError pf srv error code message w =
     (case render pf srv (error_view pf srv code) (error_data error) w of
        (Inl e, w1) \<Rightarrow> w1\<lparr>uncaught := Some e\<rparr>
      | (Inr html, w1) \<Rightarrow> respondError code (or_else html message) w1)"

definition handleError :: "platform \<Rightarrow> server \<Rightarrow> string \<Rightarrow> error_value \<Rightarrow> world \<Rightarrow> world" where
  "handleError pf srv pathname error w0 =
     (let w = w0\<lparr>handled := handled w0 @ [HandleError pathname error]\<rparr> in
      if headerSent (res w) then w
      else case error of
        ExpectedError cls message code others \<Rightarrow> renderError pf srv error code message w
      | NotFoundError message p \<Rightarrow> renderError pf srv error (Finite 404) message w
      | OtherError v \<Rightarrow> respondError (Finite 500) ''Server Error'' w)"

section \<open>The dispatch loop\<close>

text \<open>
  The closure \<open>next\<close> of \<open>_handleRequest\<close>, with its counter \<open>index\<close> as an argument.
  \<open>pathname\<close> is the path of the parsed request url; \<open>req\<close> carries the method and
  the parsed query.
\<close>

definition rewritten_path :: "route \<Rightarrow> string \<Rightarrow> string" where
  "rewritten_path route pathname =
     (if extendable route \<and> path route \<noteq> ''/''
      then drop (length (path route)) pathname else pathname)"

text \<open>
  Setting \<open>req.path\<close> and calling the middleware: what it handed back, and the state
  with the response as the handler left it.
\<close>

definition invoke :: "route \<Rightarrow> nat \<Rightarrow> request \<Rightarrow> string \<Rightarrow> world \<Rightarrow> completion \<times> world" where
  "invoke route index req pathname w =
     (let req' = req\<lparr>req_path := rewritten_path route pathname\<rparr>;
          called = middleware route req' (res w)
      in (fst called,
          w\<lparr>res := snd called,
            invoked := invoked w @
              [\<lparr>inv_index = index, inv_request = req', inv_before = res w,
                inv_completion = fst called, inv_response = snd called\<rparr>]\<rparr>))"

function dispatch_next :: "platform \<Rightarrow> server \<Rightarrow> request \<Rightarrow> string \<Rightarrow> nat \<Rightarrow> world \<Rightarrow> world" where
  "dispatch_next pf srv req pathname index w =
     (if length (routes srv) \<le> index then
        handleError pf srv pathname (NotFoundError ''Page Not Found'' pathname) w
      else
        (let route = routes srv ! index in
         if skipped route (req_method req) pathname then
           dispatch_next pf srv req pathname (index + 1) w
         else
           (case invoke route index req pathname w of
              (Throws error, w') \<Rightarrow> handleError pf srv pathname error w'
            | (Returns (Plain Req), w') \<Rightarrow> dispatch_next pf srv req pathname (index + 1) w'
            | (Returns (Plain (Val result)), w') \<Rightarrow> handleResult pf srv pathname result w'
            | (Returns (Fulfilled Req), w') \<Rightarrow> dispatch_next pf srv req pathname (index + 1) w'
            | (Returns (Fulfilled (Val result)), w') \<Rightarrow> handleResult pf srv pathname result w'
            | (Returns (Rejected reason), w') \<Rightarrow> handleError pf srv pathname reason w'
            | (Returns Pending, w') \<Rightarrow> w')))"
  by pat_completeness auto
termination
  by (relation "measure (\<lambda>(pf, srv, req, pathname, index, w). length (routes srv) - index)") auto

declare dispatch_next.simps [simp del]

text \<open>
  Ghost views of a dispatch, for stating properties: the handlers invoked and the
  \<open>_handleResult\<close>/\<open>_handleError\<close> calls made between a state and a later one.
\<close>

definition new_invocations :: "world \<Rightarrow> world \<Rightarrow> invocation list" where
  "new_invocations w w' = drop (length (invoked w)) (invoked w')"

definition new_handled :: "world \<Rightarrow> world \<Rightarrow> handled_call list" where
  "new_handled w w' = drop (length (handled w)) (handled w')"

fun call_path :: "handled_call \<Rightarrow> string" where
  "call_path (HandleResult pathname result) = pathname"
| "call_path (HandleError pathname error) = pathname"

text \<open>
  An invocation record is genuine for a request when its route is in the table and
  matches the request, the request handed over is the incoming one with \<open>path\<close> set for
  that route, and what it records is what the route's middleware did.
\<close>

definition inv_ok :: "server \<Rightarrow> request \<Rightarrow> string \<Rightarrow> invocation \<Rightarrow> bool" where
  "inv_ok srv req pathname v =
     (inv_index v < length (routes srv) \<and>
      \<not> skipped (routes srv ! inv_index v) (req_method req) pathname \<and>
      inv_request v = req\<lparr>req_path := rewritten_path (routes srv ! inv_index v) pathname\<rparr> \<and>
      middleware (routes srv ! inv_index v) (inv_request v) (inv_before v) =
        (inv_completion v, inv_response v))"

text \<open>The invariant of the loop over the invocations made from index \<open>i\<close> on.\<close>

definition trace_inv :: "server \<Rightarrow> request \<Rightarrow> string \<Rightarrow> nat \<Rightarrow> invocation list \<Rightarrow> bool" where
  "trace_inv srv req pathname i T =
     ((\<forall>v\<in>set T. i \<le> inv_index v \<and> inv_ok srv req pathname v) \<and>
      sorted_wrt (\<lambda>a b. inv_index a < inv_index b \<and> is_pass (inv_completion a)) T \<and>
      (\<forall>j v. v \<in> set T \<and> i \<le> j \<and> j < inv_index v \<and>
          \<not> skipped (routes srv ! j) (req_method req) pathname
          \<longrightarrow> j \<in> inv_index ` set T) \<and>
      ((\<forall>v\<in>set T. is_pass (inv_completion v)) \<longrightarrow>
         (\<forall>j. i \<le> j \<and> j < length (routes srv) \<and>
            \<not> skipped (routes srv ! j) (req_method req) pathname
            \<longrightarrow> j \<in> inv_index ` set T)))"

definition handleRequest :: "platform \<Rightarrow> server \<Rightarrow> request \<Rightarrow> string \<Rightarrow> world \<Rightarrow> world" where
  "handleRequest pf srv req pathname w = dispatch_next pf srv req pathname 0 w"

section \<open>The static-file middleware\<close>

record candidate =
  cand_path :: string
  gzipped :: bool

text \<open>
  \<open>findAndMerge\<close>: the first item for which the filter yields something, merged with
  what it yielded (here: the candidate paired with the size).
\<close>

fun findAndMerge :: "'a list \<Rightarrow> ('a \<Rightarrow> 'b option) \<Rightarrow> ('a \<times> 'b) option" where
  "findAndMerge [] filter_fn = None"
| "findAndMerge (item # items) filter_fn =
     (case filter_fn item of
        Some ret \<Rightarrow> Some (item, ret)
      | None \<Rightarrow> findAndMerge items filter_fn)"

definition file_size :: "platform \<Rightarrow> candidate \<Rightarrow> nat option" where
  "file_size pf c =
     (case statSync pf (cand_path c) of
        None \<Rightarrow> None
      | Some st \<Rightarrow> if isFile st then Some (stat_size st) else None)"

text \<open>
  \<open>Server.static(path, defaultPath = '/index.html')\<close>: the middleware returns a
  promise; with no candidate it is resolved with the request, on a hit the headers are
  set and the file is piped into the response.
\<close>

definition default_document :: "string option \<Rightarrow> string" where
  "default_document defaultPathArg =
     (let defaultPath = (case defaultPathArg of None \<Rightarrow> ''/index.html'' | Some d \<Rightarrow> d)
      in if defaultPath \<noteq> [] \<and> hd defaultPath \<noteq> CHR ''/''
         then CHR ''/'' # defaultPath else defaultPath)"

definition static_file_path :: "platform \<Rightarrow> string \<Rightarrow> string option \<Rightarrow> request \<Rightarrow> string" where
  "static_file_path pf dir defaultPathArg req =
     (let urlPath = (if req_path req = ''/'' then default_document defaultPathArg else req_path req)
      in Path_join pf dir urlPath)"

text \<open>
  How the promise of the middleware settles once the file is piped: \<open>resolve()\<close> when
  the response reports \<open>end\<close>, \<open>reject(error)\<close> on an error of the stream or of the
  response, and not at all when neither is reported.
\<close>

fun settles :: "stream_end \<Rightarrow> resolvable" where
  "settles StreamEnded = Fulfilled (Val (Object JUndefined))"
| "settles (StreamFailed e) = Rejected (OtherError e)"
| "settles StreamSilent = Pending"

text \<open>
  \<open>stream.pipe(res)\<close>: the bytes delivered are written, and the response is ended unless
  the stream failed.
\<close>

definition piped :: "string \<times> stream_end \<Rightarrow> response \<Rightarrow> response" where
  "piped delivery r =
     (case snd delivery of
        StreamFailed e \<Rightarrow> if fst delivery = [] then r else res_write (fst delivery) r
      | StreamEnded \<Rightarrow> res_end (res_write (fst delivery) r)
      | StreamSilent \<Rightarrow> res_end (res_write (fst delivery) r))"

definition static :: "platform \<Rightarrow> string \<Rightarrow> string option \<Rightarrow> middleware" where
  "static pf dir defaultPathArg req r =
     (let filePath = static_file_path pf dir defaultPathArg req;
          candidates = [\<lparr>cand_path = filePath @ ''.gz'', gzipped = True\<rparr>,
                        \<lparr>cand_path = filePath, gzipped = False\<rparr>]
      in case findAndMerge candidates (file_size pf) of
           None \<Rightarrow> (Returns (Fulfilled Req), r)
         | Some (target, sz) \<Rightarrow>
             (let r1 = (if gzipped target then setHeader ''Content-Encoding'' ''gzip'' r else r);
                  r2 = setHeader ''Content-Length'' (Number_toString pf (Finite (real sz))) r1;
                  extname = Path_extname pf filePath;
                  r3 = setHeader ''Content-Type''
                         (case mimeMap pf extname of
                            Some mime \<Rightarrow> mime
                          | None \<Rightarrow> ''application/octet-stream'') r2;
                  delivery = readStream pf (cand_path target)
              in (Returns (settles (snd delivery)), piped delivery r3)))"

section \<open>Example configurations\<close>

text \<open>
  A concrete platform, handlers and servers on which the properties below are
  evaluated. \<open>join_paths\<close>, \<open>dot_suffix\<close>, \<open>demo_stringify\<close>, \<open>demo_number\<close>,
  \<open>demo_object\<close> and \<open>demo_inherited\<close> stand for \<open>Path.join\<close>, \<open>Path.extname\<close>,
  \<open>JSON.stringify\<close>, the conversions to a string and the inherited properties on the
  simple arguments used here (relative directories, one dot in a file name, strings that
  need no escaping, integers of a few digits, the classes of this program).
\<close>

definition join_paths :: "string \<Rightarrow> string \<Rightarrow> string" where
  "join_paths a b = (if take 1 b = ''/'' then a @ b else a @ ''/'' @ b)"

definition dot_suffix :: "string \<Rightarrow> string" where
  "dot_suffix p =
     (if CHR ''.'' \<in> set p then CHR ''.'' # rev (takeWhile (\<lambda>c. c \<noteq> CHR ''.'') (rev p)) else [])"

fun join_commas :: "string list \<Rightarrow> string" where
  "join_commas [] = []"
| "join_commas [x] = x"
| "join_commas (x # y # zs) = x @ '','' @ join_commas (y # zs)"

text \<open>Decimal digits, as an integer of moderate size is printed.\<close>

definition digit_char :: "nat \<Rightarrow> char" where
  "digit_char d = ''0123456789'' ! d"

function nat_toString :: "nat \<Rightarrow> string" where
  "nat_toString n = (if n < 10 then [digit_char n] else nat_toString (n div 10) @ [digit_char (n mod 10)])"
  by pat_completeness auto
termination
  by (relation "measure id") auto

definition int_toString :: "int \<Rightarrow> string" where
  "int_toString i = (if i < 0 then CHR ''-'' # nat_toString (nat (- i)) else nat_toString (nat i))"

fun demo_number :: "number \<Rightarrow> string" where
  "demo_number (Finite x) = int_toString (floor x)"
| "demo_number NaN = ''NaN''"
| "demo_number PlusInfinity = ''Infinity''"
| "demo_number MinusInfinity = ''-Infinity''"

definition demo_object :: "jsval \<Rightarrow> js_error + string" where
  "demo_object v = Inr ''[object Object]''"

text \<open>
  The inherited properties that the examples read. The prototype of a class is the value
  named \<open>Class.prototype\<close>, its constructor the value named \<open>Class\<close>. \<open>__proto__\<close>
  reads the prototype, for \<open>NotFoundError.prototype\<close> that of \<open>ExpectedError\<close>, for any
  other prototype \<open>Object.prototype\<close>, and above that \<open>null\<close>; \<open>constructor\<close> reads
  the constructor, whose \<open>name\<close> is the name of the class; a string has its \<open>length\<close>.
\<close>

definition is_prototype :: "string \<Rightarrow> bool" where
  "is_prototype x = (drop (length x - 10) x = ''.prototype'')"

definition demo_inherited :: "jsval \<Rightarrow> string \<Rightarrow> js_error + jsval" where
  "demo_inherited v key =
     (if key = ''__proto__'' then
        (case v of
           JObj pr kvs \<Rightarrow>
             (case pr of
                Prototype c \<Rightarrow> Inr (JOther (c @ ''.prototype''))
              | NoPrototype \<Rightarrow> Inr JUndefined)
         | JStr s \<Rightarrow> Inr (JOther ''String.prototype'')
         | JNum n \<Rightarrow> Inr (JOther ''Number.prototype'')
         | JBool b \<Rightarrow> Inr (JOther ''Boolean.prototype'')
         | JOther x \<Rightarrow>
             (if x = ''NotFoundError.prototype'' then Inr (JOther ''ExpectedError.prototype'')
              else if x = ''Object.prototype'' then Inr JNull
              else if is_prototype x then Inr (JOther ''Object.prototype'')
              else Inr (JOther ''Function.prototype''))
         | _ \<Rightarrow> Inr JUndefined)
      else if key = ''constructor'' then
        (case v of
           JObj pr kvs \<Rightarrow>
             (case pr of Prototype c \<Rightarrow> Inr (JOther c) | NoPrototype \<Rightarrow> Inr JUndefined)
         | JStr s \<Rightarrow> Inr (JOther ''String'')
         | JNum n \<Rightarrow> Inr (JOther ''Number'')
         | JBool b \<Rightarrow> Inr (JOther ''Boolean'')
         | JOther x \<Rightarrow>
             (if is_prototype x then Inr (JOther (take (length x - 10) x))
              else Inr (JOther ''Function''))
         | _ \<Rightarrow> Inr JUndefined)
      else if key = ''name'' then
        (case v of
           JOther x \<Rightarrow> (if is_prototype x then Inr JUndefined else Inr (JStr x))
         | _ \<Rightarrow> Inr JUndefined)
      else if key = ''length'' then
        (case v of JStr s \<Rightarrow> Inr (JNum (Finite (real (length s)))) | _ \<Rightarrow> Inr JUndefined)
      else Inr JUndefined)"

fun demo_member :: "string \<times> string option \<Rightarrow> string list" where
  "demo_member (k, None) = []"
| "demo_member (k, Some s) = [[CHR 0x22] @ k @ [CHR 0x22] @ '':'' @ s]"

primrec demo_json :: "jsval \<Rightarrow> string option" where
  "demo_json JUndefined = None"
| "demo_json JNull = Some ''null''"
| "demo_json (JBool b) = Some (if b then ''true'' else ''false'')"
| "demo_json (JNum n) = Some (case n of Finite x \<Rightarrow> demo_number n | _ \<Rightarrow> ''null'')"
| "demo_json (JStr s) = Some ([CHR 0x22] @ s @ [CHR 0x22])"
| "demo_json (JObj pr kvs) =
     Some (''{'' @ join_commas (concat (map demo_member (map (map_prod id demo_json) kvs))) @ ''}'')"
| "demo_json (JOther x) = None"

definition demo_stringify :: "jsval \<Rightarrow> js_error + string option" where
  "demo_stringify v = Inr (demo_json v)"

definition demo_views :: "string \<Rightarrow> view_read" where
  "demo_views p =
     (case [''views/widget.html'' \<mapsto> ''Hello {user.name}!'',
            ''views/blank.html'' \<mapsto> [],
            ''views/error/418.html'' \<mapsto> [],
            ''views/error/500.html'' \<mapsto> ''Error {statusCode}: {message}''] p of
        None \<Rightarrow> Missing
      | Some template \<Rightarrow> Content template)"

definition demo_platform :: platform where
  "demo_platform =
     \<lparr>Path_join = join_paths, Path_extname = dot_suffix, JSON_stringify = demo_stringify,
      Number_toString = demo_number, Object_toString = demo_object,
      inherited = demo_inherited,
      mimeMap = [''.html'' \<mapsto> ''text/html'', ''.js'' \<mapsto> ''application/javascript''],
      viewFile = demo_views,
      statSync = [''static'' \<mapsto> \<lparr>isFile = False, stat_size = 4096\<rparr>,
                  ''static/a.html'' \<mapsto> \<lparr>isFile = True, stat_size = 120\<rparr>,
                  ''static/a.html.gz'' \<mapsto> \<lparr>isFile = True, stat_size = 64\<rparr>,
                  ''static/2.unknown'' \<mapsto> \<lparr>isFile = True, stat_size = 7\<rparr>],
      readStream = (\<lambda>p. (''bytes of '' @ p, StreamEnded))\<rparr>"

text \<open>
  The platform with other views: a 404 page that walks up the prototypes of the error, a
  409 page that reads below a property of the error, and a view whose file cannot be read.
\<close>

definition chained_views :: "string \<Rightarrow> view_read" where
  "chained_views p =
     (if p = ''views/error/404.html'' then Content ''{__proto__.__proto__.__proto__.__proto__.x}''
      else if p = ''views/error/409.html'' then Content ''Conflict with {cause.code}''
      else if p = ''views/locked.html'' then ReadFails (JStr ''EACCES'')
      else Missing)"

definition chained_platform :: platform where
  "chained_platform = demo_platform\<lparr>viewFile := chained_views\<rparr>"

text \<open>\<open>new Server()\<close> with the views root \<open>views\<close>.\<close>

definition server0 :: server where
  "server0 = \<lparr>routes = [], views = ''views'', errorViewsFolder = ''error''\<rparr>"

definition decline :: middleware where
  "decline req r = (Returns (Plain Req), r)"

definition info :: middleware where
  "info req r =
     (Returns (Plain (Val (Object (JObj (Prototype ''Object'')
        [(''sn'', JStr ''X1''), (''time'', JNum (Finite 123))])))), r)"

definition null_user :: middleware where
  "null_user req r =
     (Returns (Fulfilled (Val (Object (JObj (Prototype ''Object'') [(''user'', JNull)])))), r)"

definition scribble_then_decline :: middleware where
  "scribble_then_decline req r = (Returns (Plain Req), res_write ''partial'' r)"

text \<open>A handler that answers with the path it is given, through a response object.\<close>

definition echo_path :: middleware where
  "echo_path req r = (Returns (Plain (Val (Response (\<lambda>r0. res_end (res_write (req_path req) r0))))), r)"

definition get_request :: request where
  "get_request = \<lparr>req_method = ''GET'', req_path = [], req_query = []\<rparr>"

text \<open>A declining mount on the root, an exact GET route and a mount below it.\<close>

definition ordered_server :: server where
  "ordered_server = use ''/api'' info (get ''/api'' info (use ''/'' decline server0))"

definition declining_server :: server where
  "declining_server = use ''/'' decline server0"

definition scribbling_server :: server where
  "scribbling_server = use ''/'' scribble_then_decline server0"

definition widget_server :: server where
  "widget_server = get ''/widget'' null_user server0"

definition echo_server :: server where
  "echo_server = use ''/build'' echo_path server0"

section \<open>Properties of registration and matching\<close>

lemma indexOf_lower: "- 1 \<le> indexOf hay needle"
  by (induction hay) (auto simp: Let_def)

lemma indexOf_zero_iff: "indexOf hay needle = 0 \<longleftrightarrow> prefix needle hay"
proof (cases hay)
  case Nil
  then show ?thesis by auto
next
  case (Cons c hay')
  have "- 1 \<le> indexOf hay' needle" by (rule indexOf_lower)
  then show ?thesis using Cons by (auto simp: Let_def)
qed

subsection \<open>Registration\<close>

text \<open>
  C3. Registration normalises the pattern: for \<open>/\<close> both paths are \<open>/\<close>; for a pattern
  ending in a slash the exact path is the pattern without that slash and the prefix path
  is the pattern; otherwise the exact path is the pattern and the prefix path is the
  pattern with a slash appended. The route goes to the end of the list, whichever of
  \<open>add\<close>, \<open>use\<close>, \<open>get\<close>, \<open>post\<close> registers it. So a mount on a pattern and on the
  pattern with a trailing slash match the same paths.
\<close>

theorem add_normalises_pattern:
  "routes (add options srv) = routes srv @ [last (routes (add options srv))] \<and>
   route_method (last (routes (add options srv))) = route_method options \<and>
   extendable (last (routes (add options srv))) = extendable options \<and>
   middleware (last (routes (add options srv))) = middleware options \<and>
   (path options = ''/'' \<longrightarrow>
      path (last (routes (add options srv))) = ''/'' \<and>
      pathWithEndingSlash (last (routes (add options srv))) = ''/'') \<and>
   (path options \<noteq> ''/'' \<and> path options \<noteq> [] \<and> last (path options) = CHR ''/'' \<longrightarrow>
      path (last (routes (add options srv))) = butlast (path options) \<and>
      pathWithEndingSlash (last (routes (add options srv))) = path options) \<and>
   (path options \<noteq> ''/'' \<and> (path options = [] \<or> last (path options) \<noteq> CHR ''/'') \<longrightarrow>
      path (last (routes (add options srv))) = path options \<and>
      pathWithEndingSlash (last (routes (add options srv))) = path options @ ''/'') \<and>
   use p mw srv = add \<lparr>route_method = None, path = p, extendable = True, middleware = mw\<rparr> srv \<and>
   get p mw srv = add \<lparr>route_method = Some ''GET'', path = p, extendable = False, middleware = mw\<rparr> srv \<and>
   post p mw srv = add \<lparr>route_method = Some ''POST'', path = p, extendable = False, middleware = mw\<rparr> srv \<and>
   (p \<noteq> [] \<and> last p \<noteq> CHR ''/'' \<longrightarrow>
      skipped (last (routes (use p mw srv))) reqMethod pathname =
      skipped (last (routes (use (p @ ''/'') mw' srv'))) reqMethod pathname)"
proof -
  have norm: "routes (add options srv) = routes srv @ [last (routes (add options srv))]"
    by (simp add: add_def Let_def)
  have fields: "route_method (last (routes (add options srv))) = route_method options"
    "extendable (last (routes (add options srv))) = extendable options"
    "middleware (last (routes (add options srv))) = middleware options"
    by (simp_all add: add_def Let_def)
  have root: "path options = ''/'' \<longrightarrow>
      path (last (routes (add options srv))) = ''/'' \<and>
      pathWithEndingSlash (last (routes (add options srv))) = ''/''"
    by (simp add: add_def Let_def)
  have slash: "path options \<noteq> ''/'' \<and> path options \<noteq> [] \<and> last (path options) = CHR ''/'' \<longrightarrow>
      path (last (routes (add options srv))) = butlast (path options) \<and>
      pathWithEndingSlash (last (routes (add options srv))) = path options"
    by (simp add: add_def Let_def butlast_conv_take)
  have plain: "path options \<noteq> ''/'' \<and> (path options = [] \<or> last (path options) \<noteq> CHR ''/'') \<longrightarrow>
      path (last (routes (add options srv))) = path options \<and>
      pathWithEndingSlash (last (routes (add options srv))) = path options @ ''/''"
    by (auto simp: add_def Let_def)
  have same: "p \<noteq> [] \<and> last p \<noteq> CHR ''/'' \<longrightarrow>
      skipped (last (routes (use p mw srv))) reqMethod pathname =
      skipped (last (routes (use (p @ ''/'') mw' srv'))) reqMethod pathname"
  proof
    assume h: "p \<noteq> [] \<and> last p \<noteq> CHR ''/''"
    then have "p \<noteq> ''/''" "p @ ''/'' \<noteq> ''/''" by auto
    then show "skipped (last (routes (use p mw srv))) reqMethod pathname =
      skipped (last (routes (use (p @ ''/'') mw' srv'))) reqMethod pathname"
      using h by (simp add: use_def add_def Let_def skipped_def)
  qed
  show ?thesis
    using norm fields root slash plain same by (simp add: use_def get_def post_def)
qed

theorem add_normalises_pattern_witness:
  "path (last (routes (use ''/foo/'' decline server0))) = ''/foo'' \<and>
   pathWithEndingSlash (last (routes (use ''/foo/'' decline server0))) = ''/foo/'' \<and>
   path (last (routes (get ''/foo'' decline server0))) = ''/foo'' \<and>
   pathWithEndingSlash (last (routes (get ''/foo'' decline server0))) = ''/foo/'' \<and>
   pathWithEndingSlash (last (routes (use ''/'' decline server0))) = ''/'' \<and>
   skipped (last (routes (use ''/foo'' decline server0))) ''GET'' ''/foo/bar'' =
   skipped (last (routes (use ''/foo/'' decline server0))) ''GET'' ''/foo/bar'' \<and>
   \<not> skipped (last (routes (use ''/foo'' decline server0))) ''GET'' ''/foo/bar'' \<and>
   skipped (last (routes (get ''/foo'' decline server0))) ''GET'' ''/foo/bar''"
  using add_normalises_pattern [where options = "\<lparr>route_method = None, path = ''/foo/'', extendable = True, middleware = decline\<rparr>"
      and srv = server0 and p = "''/foo''" and mw = decline and mw' = decline and srv' = server0
      and reqMethod = "''GET''" and pathname = "''/foo/bar''"]
    add_normalises_pattern [where options = "\<lparr>route_method = Some ''GET'', path = ''/foo'', extendable = False, middleware = decline\<rparr>"
      and srv = server0 and p = "''/''" and mw = decline and mw' = decline and srv' = server0
      and reqMethod = "''GET''" and pathname = "''/foo/bar''"]
  by (simp add: use_def get_def add_def Let_def skipped_def server0_def)

subsection \<open>Frame lemmas and the steps of the loop\<close>

lemma fill_frame: "snd (fill pf t d w) = w"
  by (simp add: fill_def split: sum.splits)

lemma render_frame:
  assumes "render pf srv v d w = (r, w1)"
  shows "invoked w1 = invoked w" "res w1 = res w" "handled w1 = handled w" "uncaught w1 = uncaught w"
proof -
  have "snd (render pf srv v d w) = w1" using assms by simp
  then have "invoked w1 = invoked w \<and> res w1 = res w \<and> handled w1 = handled w \<and> uncaught w1 = uncaught w"
    by (auto simp: render_def Let_def fill_frame split: option.splits if_splits view_read.splits)
  then show "invoked w1 = invoked w" "res w1 = res w" "handled w1 = handled w" "uncaught w1 = uncaught w"
    by simp_all
qed

lemma renderError_frame:
  "invoked (renderError pf srv e c m w) = invoked w"
  "handled (renderError pf srv e c m w) = handled w"
proof -
  obtain r w1 where R: "render pf srv (error_view pf srv c) (error_data e) w = (r, w1)"
    by (cases "render pf srv (error_view pf srv c) (error_data e) w")
  show "invoked (renderError pf srv e c m w) = invoked w"
    using render_frame(1)[OF R]
    unfolding renderError_def R by (simp add: respondError_def split: sum.splits option.splits)
  show "handled (renderError pf srv e c m w) = handled w"
    using render_frame(3)[OF R]
    unfolding renderError_def R by (simp add: respondError_def split: sum.splits option.splits)
qed

lemma handleError_invoked: "invoked (handleError pf srv p e w) = invoked w"
  by (simp add: handleError_def Let_def renderError_frame respondError_def split: error_value.splits)

lemma handleError_handled: "handled (handleError pf srv p e w) = handled w @ [HandleError p e]"
  by (simp add: handleError_def Let_def renderError_frame respondError_def split: error_value.splits)

lemma handleResult_frame:
  "invoked (handleResult pf srv p r w) = invoked w"
  "handled (handleResult pf srv p r w) = handled w @ [HandleResult p r]"
proof -
  have "invoked (handleResult pf srv p r w) = invoked w \<and> handled (handleResult pf srv p r w) = handled w @ [HandleResult p r]"
  proof (cases r)
    case (Response f)
    then show ?thesis by (simp add: handleResult_def Let_def)
  next
    case (Object v)
    obtain x w1 where R: "render pf srv p v (w\<lparr>handled := handled w @ [HandleResult p (Object v)]\<rparr>) = (x, w1)"
      by (cases "render pf srv p v (w\<lparr>handled := handled w @ [HandleResult p (Object v)]\<rparr>)")
    show ?thesis
      using render_frame(1)[OF R] render_frame(3)[OF R]
      unfolding handleResult_def Let_def Object
      by (simp add: R split: sum.splits option.splits)
  qed
  then show "invoked (handleResult pf srv p r w) = invoked w"
    "handled (handleResult pf srv p r w) = handled w @ [HandleResult p r]" by simp_all
qed

lemma is_pass_iff: "is_pass c \<longleftrightarrow> c = Returns (Plain Req) \<or> c = Returns (Fulfilled Req)"
  by (cases c rule: is_pass.cases) simp_all

lemma dispatch_exhausted:
  "length (routes srv) \<le> i \<Longrightarrow>
   dispatch_next pf srv req p i w = handleError pf srv p (NotFoundError ''Page Not Found'' p) w"
  by (subst dispatch_next.simps) simp

lemma dispatch_skip:
  "i < length (routes srv) \<Longrightarrow> skipped (routes srv ! i) (req_method req) p \<Longrightarrow>
   dispatch_next pf srv req p i w = dispatch_next pf srv req p (Suc i) w"
  by (subst dispatch_next.simps) simp

lemma dispatch_pass:
  "i < length (routes srv) \<Longrightarrow> \<not> skipped (routes srv ! i) (req_method req) p \<Longrightarrow>
   is_pass (fst (invoke (routes srv ! i) i req p w)) \<Longrightarrow>
   dispatch_next pf srv req p i w =
   dispatch_next pf srv req p (Suc i) (snd (invoke (routes srv ! i) i req p w))"
  by (subst dispatch_next.simps) (auto simp: is_pass_iff Let_def split: prod.splits)

lemma dispatch_stop:
  "i < length (routes srv) \<Longrightarrow> \<not> skipped (routes srv ! i) (req_method req) p \<Longrightarrow>
   \<not> is_pass (fst (invoke (routes srv ! i) i req p w)) \<Longrightarrow>
   dispatch_next pf srv req p i w =
   (case fst (invoke (routes srv ! i) i req p w) of
      Throws error \<Rightarrow> handleError pf srv p error (snd (invoke (routes srv ! i) i req p w))
    | Returns (Plain (Val result)) \<Rightarrow> handleResult pf srv p result (snd (invoke (routes srv ! i) i req p w))
    | Returns (Fulfilled (Val result)) \<Rightarrow> handleResult pf srv p result (snd (invoke (routes srv ! i) i req p w))
    | Returns (Rejected reason) \<Rightarrow> handleError pf srv p reason (snd (invoke (routes srv ! i) i req p w))
    | _ \<Rightarrow> snd (invoke (routes srv ! i) i req p w))"
  by (subst dispatch_next.simps)
     (auto simp: is_pass_iff Let_def split: prod.splits completion.splits resolvable.splits returned.splits)

lemma invoke_fst_snd:
  "invoked (snd (invoke r i req p w)) = invoked w @
     [\<lparr>inv_index = i, inv_request = req\<lparr>req_path := rewritten_path r p\<rparr>, inv_before = res w,
       inv_completion = fst (invoke r i req p w), inv_response = res (snd (invoke r i req p w))\<rparr>]"
  "handled (snd (invoke r i req p w)) = handled w"
  "fst (invoke r i req p w) = fst (middleware r (req\<lparr>req_path := rewritten_path r p\<rparr>) (res w))"
  "res (snd (invoke r i req p w)) = snd (middleware r (req\<lparr>req_path := rewritten_path r p\<rparr>) (res w))"
  "templateCache (snd (invoke r i req p w)) = templateCache w"
  by (simp_all add: invoke_def Let_def)

lemma stop_invoked:
  "invoked (case c of
      Throws error \<Rightarrow> handleError pf srv p error w'
    | Returns (Plain (Val result)) \<Rightarrow> handleResult pf srv p result w'
    | Returns (Fulfilled (Val result)) \<Rightarrow> handleResult pf srv p result w'
    | Returns (Rejected reason) \<Rightarrow> handleError pf srv p reason w'
    | _ \<Rightarrow> w') = invoked w'"
  by (simp add: handleError_invoked handleResult_frame split: completion.splits resolvable.splits returned.splits)

lemma dispatch_invoked_prefix:
  "prefix (invoked w) (invoked (dispatch_next pf srv req p i w))"
proof (induction "length (routes srv) - i" arbitrary: i w)
  case 0
  then have "length (routes srv) \<le> i" by simp
  then show ?case by (simp add: dispatch_exhausted handleError_invoked)
next
  case (Suc n)
  then have lt: "i < length (routes srv)" and n: "n = length (routes srv) - Suc i" by simp_all
  let ?r = "routes srv ! i"
  show ?case
  proof (cases "skipped ?r (req_method req) p")
    case True
    then show ?thesis using Suc.hyps(1)[OF n] lt by (simp add: dispatch_skip)
  next
    case False
    show ?thesis
    proof (cases "is_pass (fst (invoke ?r i req p w))")
      case True
      have "prefix (invoked (snd (invoke ?r i req p w)))
              (invoked (dispatch_next pf srv req p (Suc i) (snd (invoke ?r i req p w))))"
        by (rule Suc.hyps(1)[OF n])
      then have "prefix (invoked w) (invoked (dispatch_next pf srv req p (Suc i) (snd (invoke ?r i req p w))))"
        unfolding invoke_fst_snd(1) by (rule append_prefixD)
      then show ?thesis using lt False True by (simp add: dispatch_pass)
    next
      case nopass: False
      show ?thesis
        unfolding dispatch_stop[OF lt False nopass] stop_invoked invoke_fst_snd(1) by simp
    qed
  qed
qed

lemma invoked_split:
  "invoked (dispatch_next pf srv req p i w) =
   invoked w @ new_invocations w (dispatch_next pf srv req p i w)"
  using dispatch_invoked_prefix[of w pf srv req p i]
  by (auto simp: new_invocations_def prefix_def)

lemma N_exhausted:
  "length (routes srv) \<le> i \<Longrightarrow> new_invocations w (dispatch_next pf srv req p i w) = []"
  by (simp add: new_invocations_def dispatch_exhausted handleError_invoked)

lemma N_skip:
  "i < length (routes srv) \<Longrightarrow> skipped (routes srv ! i) (req_method req) p \<Longrightarrow>
   new_invocations w (dispatch_next pf srv req p i w) =
   new_invocations w (dispatch_next pf srv req p (Suc i) w)"
  by (simp add: dispatch_skip)

lemma N_pass:
  assumes "i < length (routes srv)" "\<not> skipped (routes srv ! i) (req_method req) p"
    "is_pass (fst (invoke (routes srv ! i) i req p w))"
  shows "new_invocations w (dispatch_next pf srv req p i w) =
     last (invoked (snd (invoke (routes srv ! i) i req p w))) #
     new_invocations (snd (invoke (routes srv ! i) i req p w))
       (dispatch_next pf srv req p (Suc i) (snd (invoke (routes srv ! i) i req p w)))"
proof -
  let ?w' = "snd (invoke (routes srv ! i) i req p w)"
  obtain ys where ys: "invoked (dispatch_next pf srv req p (Suc i) ?w') = invoked ?w' @ ys"
    using dispatch_invoked_prefix[of ?w' pf srv req p "Suc i"] by (auto simp: prefix_def)
  show ?thesis
    unfolding dispatch_pass[OF assms] new_invocations_def ys
    by (simp add: invoke_fst_snd(1))
qed

lemma N_stop:
  assumes "i < length (routes srv)" "\<not> skipped (routes srv ! i) (req_method req) p"
    "\<not> is_pass (fst (invoke (routes srv ! i) i req p w))"
  shows "new_invocations w (dispatch_next pf srv req p i w) =
     [last (invoked (snd (invoke (routes srv ! i) i req p w)))]"
  unfolding dispatch_stop[OF assms] new_invocations_def stop_invoked
  by (simp add: invoke_fst_snd(1))

lemma trace_induct [case_names exhausted skip pass stop]:
  assumes ex: "\<And>i w. length (routes srv) \<le> i \<Longrightarrow> P i w []"
    and sk: "\<And>i w T. i < length (routes srv) \<Longrightarrow> skipped (routes srv ! i) (req_method req) p \<Longrightarrow>
               P (Suc i) w T \<Longrightarrow> P i w T"
    and pa: "\<And>i w v T. i < length (routes srv) \<Longrightarrow> \<not> skipped (routes srv ! i) (req_method req) p \<Longrightarrow>
               inv_index v = i \<Longrightarrow> inv_request v = req\<lparr>req_path := rewritten_path (routes srv ! i) p\<rparr> \<Longrightarrow>
               inv_before v = res w \<Longrightarrow>
               middleware (routes srv ! i) (inv_request v) (inv_before v) = (inv_completion v, inv_response v) \<Longrightarrow>
               is_pass (inv_completion v) \<Longrightarrow>
               P (Suc i) (snd (invoke (routes srv ! i) i req p w)) T \<Longrightarrow> P i w (v # T)"
    and st: "\<And>i w v. i < length (routes srv) \<Longrightarrow> \<not> skipped (routes srv ! i) (req_method req) p \<Longrightarrow>
               inv_index v = i \<Longrightarrow> inv_request v = req\<lparr>req_path := rewritten_path (routes srv ! i) p\<rparr> \<Longrightarrow>
               inv_before v = res w \<Longrightarrow>
               middleware (routes srv ! i) (inv_request v) (inv_before v) = (inv_completion v, inv_response v) \<Longrightarrow>
               \<not> is_pass (inv_completion v) \<Longrightarrow> P i w [v]"
  shows "P i w (new_invocations w (dispatch_next pf srv req p i w))"
proof (induction "length (routes srv) - i" arbitrary: i w)
  case 0
  then have "length (routes srv) \<le> i" by simp
  then show ?case by (simp add: N_exhausted ex)
next
  case (Suc n)
  then have lt: "i < length (routes srv)" and n: "n = length (routes srv) - Suc i" by simp_all
  let ?r = "routes srv ! i"
  let ?v = "last (invoked (snd (invoke ?r i req p w)))"
  have v: "inv_index ?v = i" "inv_request ?v = req\<lparr>req_path := rewritten_path ?r p\<rparr>"
    "inv_before ?v = res w"
    "middleware ?r (inv_request ?v) (inv_before ?v) = (inv_completion ?v, inv_response ?v)"
    "inv_completion ?v = fst (invoke ?r i req p w)"
    by (simp_all add: invoke_def Let_def)
  show ?case
  proof (cases "skipped ?r (req_method req) p")
    case True
    show ?thesis
      unfolding N_skip[OF lt True] by (rule sk[OF lt True Suc.hyps(1)[OF n]])
  next
    case False
    show ?thesis
    proof (cases "is_pass (fst (invoke ?r i req p w))")
      case True
      show ?thesis
        unfolding N_pass[OF lt False True]
        using True by (intro pa[OF lt False v(1-4) _ Suc.hyps(1)[OF n]]) (simp add: v(5))
    next
      case nopass: False
      show ?thesis
        unfolding N_stop[OF lt False nopass]
        using nopass by (intro st[OF lt False v(1-4)]) (simp add: v(5))
    qed
  qed
qed

lemma trace_props:
  "trace_inv srv req p i (new_invocations w (dispatch_next pf srv req p i w))"
proof (rule trace_induct[where P="\<lambda>i w T. trace_inv srv req p i T"], goal_cases exhausted skip pass stop)
  case (exhausted i w)
  then show ?case by (simp add: trace_inv_def)
next
  case (skip i w T)
  note skip = skip[unfolded trace_inv_def]
  have A: "\<forall>v\<in>set T. i \<le> inv_index v \<and> inv_ok srv req p v" using skip by auto
  have D: "\<forall>j v. v \<in> set T \<and> i \<le> j \<and> j < inv_index v \<and> \<not> skipped (routes srv ! j) (req_method req) p
        \<longrightarrow> j \<in> inv_index ` set T"
  proof (intro allI impI)
    fix j v assume h: "v \<in> set T \<and> i \<le> j \<and> j < inv_index v \<and> \<not> skipped (routes srv ! j) (req_method req) p"
    then have "j \<noteq> i" using skip(2) by auto
    then have "Suc i \<le> j" using h by simp
    then show "j \<in> inv_index ` set T" using skip(3) h by blast
  qed
  have E: "(\<forall>v\<in>set T. is_pass (inv_completion v)) \<longrightarrow>
        (\<forall>j. i \<le> j \<and> j < length (routes srv) \<and> \<not> skipped (routes srv ! j) (req_method req) p
           \<longrightarrow> j \<in> inv_index ` set T)"
  proof (intro allI impI)
    fix j assume ap: "\<forall>v\<in>set T. is_pass (inv_completion v)"
      and h: "i \<le> j \<and> j < length (routes srv) \<and> \<not> skipped (routes srv ! j) (req_method req) p"
    then have "j \<noteq> i" using skip(2) by auto
    then have "Suc i \<le> j" using h by simp
    then show "j \<in> inv_index ` set T" using skip(3) h ap by blast
  qed
  show ?case unfolding trace_inv_def using A D E skip(3) by blast
next
  case (pass i w v T)
  note pass = pass[unfolded trace_inv_def]
  have IH1: "\<forall>u\<in>set T. Suc i \<le> inv_index u \<and> inv_ok srv req p u" using pass(8) by blast
  have IH2: "sorted_wrt (\<lambda>a b. inv_index a < inv_index b \<and> is_pass (inv_completion a)) T" using pass(8) by blast
  have IH3: "\<And>j u. u \<in> set T \<Longrightarrow> Suc i \<le> j \<Longrightarrow> j < inv_index u \<Longrightarrow>
     \<not> skipped (routes srv ! j) (req_method req) p \<Longrightarrow> j \<in> inv_index ` set T" using pass(8) by blast
  have IH4: "\<And>j. \<forall>u\<in>set T. is_pass (inv_completion u) \<Longrightarrow> Suc i \<le> j \<Longrightarrow> j < length (routes srv) \<Longrightarrow>
     \<not> skipped (routes srv ! j) (req_method req) p \<Longrightarrow> j \<in> inv_index ` set T" using pass(8) by blast
  have okv: "inv_ok srv req p v" using pass(1-6) by (simp add: inv_ok_def)
  have A: "\<forall>u\<in>set (v # T). i \<le> inv_index u \<and> inv_ok srv req p u"
    using IH1 okv pass(3) by (auto simp: Suc_le_eq)
  have C: "sorted_wrt (\<lambda>a b. inv_index a < inv_index b \<and> is_pass (inv_completion a)) (v # T)"
    using IH2 IH1 pass(3,7) by (auto simp: Suc_le_eq)
  have D: "\<forall>j u. u \<in> set (v # T) \<and> i \<le> j \<and> j < inv_index u \<and> \<not> skipped (routes srv ! j) (req_method req) p
        \<longrightarrow> j \<in> inv_index ` set (v # T)"
  proof (intro allI impI)
    fix j u assume h: "u \<in> set (v # T) \<and> i \<le> j \<and> j < inv_index u \<and> \<not> skipped (routes srv ! j) (req_method req) p"
    show "j \<in> inv_index ` set (v # T)"
    proof (cases "j = i")
      case True
      then show ?thesis using pass(3) by simp
    next
      case False
      then have j: "Suc i \<le> j" using h by simp
      then have "u \<noteq> v" using h pass(3) by auto
      then have "u \<in> set T" using h by simp
      then have "j \<in> inv_index ` set T" using IH3 j h by blast
      then show ?thesis by auto
    qed
  qed
  have E: "(\<forall>u\<in>set (v # T). is_pass (inv_completion u)) \<longrightarrow>
        (\<forall>j. i \<le> j \<and> j < length (routes srv) \<and> \<not> skipped (routes srv ! j) (req_method req) p
           \<longrightarrow> j \<in> inv_index ` set (v # T))"
  proof (intro allI impI)
    fix j assume ap: "\<forall>u\<in>set (v # T). is_pass (inv_completion u)"
      and h: "i \<le> j \<and> j < length (routes srv) \<and> \<not> skipped (routes srv ! j) (req_method req) p"
    show "j \<in> inv_index ` set (v # T)"
    proof (cases "j = i")
      case True
      then show ?thesis using pass(3) by simp
    next
      case False
      then have j: "Suc i \<le> j" using h by simp
      have "\<forall>u\<in>set T. is_pass (inv_completion u)" using ap by simp
      then have "j \<in> inv_index ` set T" using IH4 j h by blast
      then show ?thesis by auto
    qed
  qed
  show ?case unfolding trace_inv_def using A C D E by blast
next
  case (stop i w v)
  have okv: "inv_ok srv req p v" using stop(1-6) by (simp add: inv_ok_def)
  show ?case unfolding trace_inv_def using okv stop(3,7) by auto
qed

lemma sorted_wrt_pair:
  "sorted_wrt R xs \<Longrightarrow> x \<in> set xs \<Longrightarrow> y \<in> set xs \<Longrightarrow> x \<noteq> y \<Longrightarrow> R x y \<or> R y x"
  by (induction xs) auto

lemma first_invocation:
  assumes "i < length (routes srv)" "\<not> skipped (routes srv ! i) (req_method req) p"
  shows "map inv_index (take 1 (new_invocations w (dispatch_next pf srv req p i w))) = [i]"
proof (cases "is_pass (fst (invoke (routes srv ! i) i req p w))")
  case True
  show ?thesis unfolding N_pass[OF assms True] by (simp add: invoke_def Let_def)
next
  case False
  show ?thesis unfolding N_stop[OF assms False] by (simp add: invoke_def Let_def)
qed

subsection \<open>Evaluation of the example configurations\<close>

lemmas demo_eval =
  handleRequest_def dispatch_next.simps skipped_def invoke_def rewritten_path_def
  new_invocations_def new_handled_def
  ordered_server_def
  use_def get_def add_def server0_def decline_def info_def
  get_request_def newWorld_def newResponse_def
  handleResult_def handleError_def renderError_def error_view_def or_else_def respondError_def
  errorResponse_def
  render_def view_name_def fill_def substitute_def key_char_def
  setHeader_def res_write_def res_end_def
  demo_platform_def demo_views_def demo_object_def demo_inherited_def is_prototype_def
  demo_stringify_def
  join_paths_def dot_suffix_def int_toString_def digit_char_def Let_def

subsection \<open>Matching\<close>

text \<open>
  C2, as stated, fails in its last sentence for a request path that does not begin with
  a slash, such as the target \<open>*\<close> of \<open>OPTIONS *\<close>: the loop steps over the root
  mount, no handler is invoked, and the request ends as not found.
\<close>

theorem root_mount_steps_over_asterisk:
  "skipped (last (routes (use ''/'' decline server0))) ''OPTIONS'' ''*'' \<and>
   routes declining_server = [last (routes (use ''/'' decline server0))] \<and>
   new_invocations newWorld
     (handleRequest demo_platform declining_server (get_request\<lparr>req_method := ''OPTIONS''\<rparr>) ''*'' newWorld) = [] \<and>
   new_handled newWorld
     (handleRequest demo_platform declining_server (get_request\<lparr>req_method := ''OPTIONS''\<rparr>) ''*'' newWorld) =
     [HandleError ''*'' (NotFoundError ''Page Not Found'' ''*'')] \<and>
   statusCode (res
     (handleRequest demo_platform declining_server (get_request\<lparr>req_method := ''OPTIONS''\<rparr>) ''*'' newWorld)) =
     Finite 404"
  by (simp add: demo_eval declining_server_def)

text \<open>
  C2, amended. A route is a candidate, that is, the loop does not move past it, exactly
  when (a) its method is absent (\<open>undefined\<close> or the empty string, which the test reads
  as absent) or equals the request method, and (b) the request path equals its exact path,
  or it is a prefix-matching route and the request path starts with its prefix path. A
  route that is not a candidate is stepped over, a candidate that is reached is invoked.
  A mount on the root matches the request paths that begin with a slash, and no other.
\<close>

theorem candidate_iff_method_and_path:
  "(\<not> skipped route reqMethod pathname \<longleftrightarrow>
      (route_method route = None \<or> route_method route = Some [] \<or>
       route_method route = Some reqMethod) \<and>
      (pathname = path route \<or>
       (extendable route \<and> prefix (pathWithEndingSlash route) pathname))) \<and>
   (i < length (routes srv) \<and> skipped (routes srv ! i) (req_method req) p \<longrightarrow>
      dispatch_next pf srv req p i w = dispatch_next pf srv req p (Suc i) w) \<and>
   (i < length (routes srv) \<and> \<not> skipped (routes srv ! i) (req_method req) p \<longrightarrow>
      map inv_index (take 1 (new_invocations w (dispatch_next pf srv req p i w))) = [i]) \<and>
   (\<not> skipped (last (routes (use ''/'' mw srv'))) m q \<longleftrightarrow> prefix ''/'' q)"
proof -
  have iff: "\<not> skipped route reqMethod pathname \<longleftrightarrow>
      (route_method route = None \<or> route_method route = Some [] \<or>
       route_method route = Some reqMethod) \<and>
      (pathname = path route \<or>
       (extendable route \<and> prefix (pathWithEndingSlash route) pathname))"
    by (auto simp: skipped_def indexOf_zero_iff split: option.splits)
  have root: "\<not> skipped (last (routes (use ''/'' mw srv'))) m q \<longleftrightarrow> prefix ''/'' q"
    by (auto simp: use_def add_def Let_def skipped_def indexOf_zero_iff)
  show ?thesis
    using iff root dispatch_skip first_invocation by blast
qed

theorem candidate_iff_method_and_path_witness:
  "skipped (routes ordered_server ! 1) ''POST'' ''/api'' \<and>
   \<not> skipped (routes ordered_server ! 1) ''GET'' ''/api'' \<and>
   skipped (routes ordered_server ! 1) ''GET'' ''/api/x'' \<and>
   \<not> skipped (routes ordered_server ! 2) ''POST'' ''/api/x'' \<and>
   dispatch_next demo_platform ordered_server (get_request\<lparr>req_method := ''POST''\<rparr>) ''/api'' 1 newWorld =
   dispatch_next demo_platform ordered_server (get_request\<lparr>req_method := ''POST''\<rparr>) ''/api'' 2 newWorld \<and>
   map inv_index (take 1 (new_invocations newWorld
     (dispatch_next demo_platform ordered_server get_request ''/api'' 1 newWorld))) = [1] \<and>
   \<not> skipped (last (routes (use ''/'' decline server0))) ''DELETE'' ''/any/path'' \<and>
   skipped (last (routes (use ''/'' decline server0))) ''DELETE'' ''any/path''"
  using candidate_iff_method_and_path [where route = "routes ordered_server ! 1" and reqMethod = "''POST''"
      and pathname = "''/api''" and i = 1 and srv = ordered_server
      and req = "get_request\<lparr>req_method := ''POST''\<rparr>" and p = "''/api''" and pf = demo_platform
      and w = newWorld and q = "''/any/path''" and mw = decline and srv' = server0 and m = "''DELETE''"]
    candidate_iff_method_and_path [where route = "routes ordered_server ! 2" and reqMethod = "''POST''"
      and pathname = "''/api/x''" and i = 1 and srv = ordered_server
      and req = get_request and p = "''/api''" and pf = demo_platform
      and w = newWorld and q = "''any/path''" and mw = decline and srv' = server0 and m = "''DELETE''"]
  by (simp add: ordered_server_def use_def get_def add_def Let_def skipped_def server0_def
      get_request_def numeral_2_eq_2)

lemma stop_handled:
  "\<exists>hs. handled (case c of
      Throws error \<Rightarrow> handleError pf srv p error w'
    | Returns (Plain (Val result)) \<Rightarrow> handleResult pf srv p result w'
    | Returns (Fulfilled (Val result)) \<Rightarrow> handleResult pf srv p result w'
    | Returns (Rejected reason) \<Rightarrow> handleError pf srv p reason w'
    | _ \<Rightarrow> w') = handled w' @ hs \<and> (\<forall>c\<in>set hs. call_path c = p)"
  by (simp add: handleError_handled handleResult_frame split: completion.splits resolvable.splits returned.splits)

lemma dispatch_handled:
  "\<exists>hs. handled (dispatch_next pf srv req p i w) = handled w @ hs \<and> (\<forall>c\<in>set hs. call_path c = p)"
proof (induction "length (routes srv) - i" arbitrary: i w)
  case 0
  then have "length (routes srv) \<le> i" by simp
  then show ?case by (simp add: dispatch_exhausted handleError_handled)
next
  case (Suc n)
  then have lt: "i < length (routes srv)" and n: "n = length (routes srv) - Suc i" by simp_all
  let ?r = "routes srv ! i"
  show ?case
  proof (cases "skipped ?r (req_method req) p")
    case True
    then show ?thesis using Suc.hyps(1)[OF n] lt by (simp add: dispatch_skip)
  next
    case False
    show ?thesis
    proof (cases "is_pass (fst (invoke ?r i req p w))")
      case True
      show ?thesis
        using Suc.hyps(1)[OF n, of "snd (invoke ?r i req p w)"]
        unfolding dispatch_pass[OF lt False True] invoke_fst_snd(2) .
    next
      case nopass: False
      show ?thesis
        using stop_handled[where c = "fst (invoke ?r i req p w)" and pf = pf and srv = srv and p = p
            and w' = "snd (invoke ?r i req p w)"]
        unfolding dispatch_stop[OF lt False nopass] invoke_fst_snd(2) .
    qed
  qed
qed

lemma handled_paths:
  "\<forall>c\<in>set (new_handled w (dispatch_next pf srv req p i w)). call_path c = p"
  using dispatch_handled[of pf srv req p i w] by (auto simp: new_handled_def)

lemma dispatch_all_pass:
  "\<forall>v\<in>set (new_invocations w (dispatch_next pf srv req p i w)). is_pass (inv_completion v) \<Longrightarrow>
   dispatch_next pf srv req p i w =
   handleError pf srv p (NotFoundError ''Page Not Found'' p)
     (w\<lparr>res := last (res w # map inv_response (new_invocations w (dispatch_next pf srv req p i w))),
        invoked := invoked w @ new_invocations w (dispatch_next pf srv req p i w)\<rparr>)"
proof (induction "length (routes srv) - i" arbitrary: i w)
  case 0
  then have le: "length (routes srv) \<le> i" by simp
  show ?case unfolding N_exhausted[OF le] by (simp add: dispatch_exhausted[OF le])
next
  case (Suc n)
  then have lt: "i < length (routes srv)" and n: "n = length (routes srv) - Suc i" by simp_all
  let ?r = "routes srv ! i"
  show ?case
  proof (cases "skipped ?r (req_method req) p")
    case True
    show ?thesis
      using Suc.hyps(1)[OF n, of w] Suc.prems
      unfolding N_skip[OF lt True] unfolding dispatch_skip[OF lt True] by simp
  next
    case False
    show ?thesis
    proof (cases "is_pass (fst (invoke ?r i req p w))")
      case True
      let ?w' = "snd (invoke ?r i req p w)"
      let ?T' = "new_invocations ?w' (dispatch_next pf srv req p (Suc i) ?w')"
      have all: "\<forall>v\<in>set ?T'. is_pass (inv_completion v)"
        using Suc.prems unfolding N_pass[OF lt False True] by simp
      have w': "?w'\<lparr>res := last (res ?w' # map inv_response ?T'), invoked := invoked ?w' @ ?T'\<rparr> =
            w\<lparr>res := last (res w # map inv_response (last (invoked ?w') # ?T')),
               invoked := invoked w @ last (invoked ?w') # ?T'\<rparr>"
        by (simp add: invoke_def Let_def)
      show ?thesis
        unfolding N_pass[OF lt False True] unfolding dispatch_pass[OF lt False True]
        using Suc.hyps(1)[OF n all] w' by simp
    next
      case nopass: False
      have "\<not> is_pass (inv_completion (last (invoked (snd (invoke ?r i req p w)))))"
        using nopass by (simp add: invoke_def Let_def)
      then show ?thesis
        using Suc.prems unfolding N_stop[OF lt False nopass] by simp
    qed
  qed
qed

lemma dispatch_stopped:
  "new_invocations w (dispatch_next pf srv req p i w) \<noteq> [] \<Longrightarrow>
   \<not> is_pass (inv_completion (last (new_invocations w (dispatch_next pf srv req p i w)))) \<Longrightarrow>
   dispatch_next pf srv req p i w =
   (case inv_completion (last (new_invocations w (dispatch_next pf srv req p i w))) of
      Throws error \<Rightarrow>
        handleError pf srv p error
          (w\<lparr>res := inv_response (last (new_invocations w (dispatch_next pf srv req p i w))),
             invoked := invoked w @ new_invocations w (dispatch_next pf srv req p i w)\<rparr>)
    | Returns (Plain (Val result)) \<Rightarrow>
        handleResult pf srv p result
          (w\<lparr>res := inv_response (last (new_invocations w (dispatch_next pf srv req p i w))),
             invoked := invoked w @ new_invocations w (dispatch_next pf srv req p i w)\<rparr>)
    | Returns (Fulfilled (Val result)) \<Rightarrow>
        handleResult pf srv p result
          (w\<lparr>res := inv_response (last (new_invocations w (dispatch_next pf srv req p i w))),
             invoked := invoked w @ new_invocations w (dispatch_next pf srv req p i w)\<rparr>)
    | Returns (Rejected reason) \<Rightarrow>
        handleError pf srv p reason
          (w\<lparr>res := inv_response (last (new_invocations w (dispatch_next pf srv req p i w))),
             invoked := invoked w @ new_invocations w (dispatch_next pf srv req p i w)\<rparr>)
    | _ \<Rightarrow>
        w\<lparr>res := inv_response (last (new_invocations w (dispatch_next pf srv req p i w))),
           invoked := invoked w @ new_invocations w (dispatch_next pf srv req p i w)\<rparr>)"
proof (induction "length (routes srv) - i" arbitrary: i w)
  case 0
  then have le: "length (routes srv) \<le> i" by simp
  show ?case using "0.prems"(1) unfolding N_exhausted[OF le] by simp
next
  case (Suc n)
  then have lt: "i < length (routes srv)" and n: "n = length (routes srv) - Suc i" by simp_all
  let ?r = "routes srv ! i"
  show ?case
  proof (cases "skipped ?r (req_method req) p")
    case True
    show ?thesis
      using Suc.hyps(1)[OF n, of w] Suc.prems
      unfolding N_skip[OF lt True] unfolding dispatch_skip[OF lt True] by simp
  next
    case False
    show ?thesis
    proof (cases "is_pass (fst (invoke ?r i req p w))")
      case True
      let ?w' = "snd (invoke ?r i req p w)"
      let ?v = "last (invoked ?w')"
      let ?T' = "new_invocations ?w' (dispatch_next pf srv req p (Suc i) ?w')"
      have vpass: "is_pass (inv_completion ?v)" using True by (simp add: invoke_def Let_def)
      have ne: "?T' \<noteq> []"
      proof
        assume "?T' = []"
        then show False using Suc.prems(2) vpass unfolding N_pass[OF lt False True] by simp
      qed
      have lst: "last (?v # ?T') = last ?T'" using ne by simp
      have np: "\<not> is_pass (inv_completion (last ?T'))"
        using Suc.prems(2) unfolding N_pass[OF lt False True] lst .
      have w': "?w'\<lparr>res := inv_response (last ?T'), invoked := invoked ?w' @ ?T'\<rparr> =
            w\<lparr>res := inv_response (last ?T'), invoked := invoked w @ ?v # ?T'\<rparr>"
        by (simp add: invoke_def Let_def)
      show ?thesis
        unfolding N_pass[OF lt False True] lst unfolding dispatch_pass[OF lt False True]
        using Suc.hyps(1)[OF n ne np] unfolding w' .
    next
      case nopass: False
      let ?w' = "snd (invoke ?r i req p w)"
      have w': "w\<lparr>res := inv_response (last [last (invoked ?w')]),
                 invoked := invoked w @ [last (invoked ?w')]\<rparr> = ?w'"
        by (simp add: invoke_def Let_def)
      have c: "inv_completion (last [last (invoked ?w')]) = fst (invoke ?r i req p w)"
        by (simp add: invoke_def Let_def)
      show ?thesis
        unfolding N_stop[OF lt False nopass] unfolding dispatch_stop[OF lt False nopass]
        unfolding w' c
        by (simp split: completion.splits resolvable.splits returned.splits)
    qed
  qed
qed

subsection \<open>Order of dispatch\<close>

text \<open>
  C1. The handlers invoked for a request are invoked for matching routes only, in
  strictly increasing registration order, each with the request and response it is
  recorded with; every handler invoked before another one handed back the pass-through
  sentinel. So when a route is invoked, every matching route registered before it was
  invoked first and declined; and when every invoked handler declined, every matching
  route was invoked: no route is reordered, and none is skipped but by the match test.
\<close>

theorem routes_tried_in_registration_order:
  "invoked (handleRequest pf srv req p w) =
     invoked w @ new_invocations w (handleRequest pf srv req p w) \<and>
   (\<forall>v\<in>set (new_invocations w (handleRequest pf srv req p w)). inv_ok srv req p v) \<and>
   sorted_wrt (\<lambda>a b. inv_index a < inv_index b \<and> is_pass (inv_completion a))
     (new_invocations w (handleRequest pf srv req p w)) \<and>
   (\<forall>j v. v \<in> set (new_invocations w (handleRequest pf srv req p w)) \<and> j < inv_index v \<and>
      \<not> skipped (routes srv ! j) (req_method req) p \<longrightarrow>
      (\<exists>u\<in>set (new_invocations w (handleRequest pf srv req p w)).
         inv_index u = j \<and> is_pass (inv_completion u))) \<and>
   ((\<forall>v\<in>set (new_invocations w (handleRequest pf srv req p w)). is_pass (inv_completion v)) \<longrightarrow>
      (\<forall>j. j < length (routes srv) \<and> \<not> skipped (routes srv ! j) (req_method req) p \<longrightarrow>
         j \<in> inv_index ` set (new_invocations w (handleRequest pf srv req p w))))"
proof -
  let ?T = "new_invocations w (dispatch_next pf srv req p 0 w)"
  have inv: "trace_inv srv req p 0 ?T" by (rule trace_props)
  have A: "invoked (dispatch_next pf srv req p 0 w) = invoked w @ ?T" by (rule invoked_split)
  have B: "\<forall>v\<in>set ?T. inv_ok srv req p v" using inv by (simp add: trace_inv_def)
  have C: "sorted_wrt (\<lambda>a b. inv_index a < inv_index b \<and> is_pass (inv_completion a)) ?T"
    using inv by (simp add: trace_inv_def)
  have D: "\<forall>j v. v \<in> set ?T \<and> j < inv_index v \<and> \<not> skipped (routes srv ! j) (req_method req) p \<longrightarrow>
      (\<exists>u\<in>set ?T. inv_index u = j \<and> is_pass (inv_completion u))"
  proof (intro allI impI)
    fix j v
    assume h: "v \<in> set ?T \<and> j < inv_index v \<and> \<not> skipped (routes srv ! j) (req_method req) p"
    have "j \<in> inv_index ` set ?T" using inv h unfolding trace_inv_def by blast
    then obtain u where u: "u \<in> set ?T" "inv_index u = j" by auto
    then have "u \<noteq> v" using h by auto
    then have "(inv_index u < inv_index v \<and> is_pass (inv_completion u)) \<or>
               (inv_index v < inv_index u \<and> is_pass (inv_completion v))"
      using sorted_wrt_pair[OF C u(1)] h by blast
    then have "is_pass (inv_completion u)" using u(2) h by auto
    then show "\<exists>u\<in>set ?T. inv_index u = j \<and> is_pass (inv_completion u)" using u by blast
  qed
  have E: "(\<forall>v\<in>set ?T. is_pass (inv_completion v)) \<longrightarrow>
      (\<forall>j. j < length (routes srv) \<and> \<not> skipped (routes srv ! j) (req_method req) p \<longrightarrow>
         j \<in> inv_index ` set ?T)"
    using inv unfolding trace_inv_def by blast
  show ?thesis unfolding handleRequest_def using A B C D E by blast
qed

theorem routes_tried_in_registration_order_witness:
  "map inv_index (new_invocations newWorld
      (handleRequest demo_platform ordered_server get_request ''/api'' newWorld)) = [0, 1] \<and>
   map (\<lambda>v. is_pass (inv_completion v)) (new_invocations newWorld
      (handleRequest demo_platform ordered_server get_request ''/api'' newWorld)) = [True, False] \<and>
   length (routes ordered_server) = 3 \<and>
   \<not> skipped (routes ordered_server ! 2) ''GET'' ''/api''"
  using routes_tried_in_registration_order [where pf = demo_platform and srv = ordered_server
      and req = get_request and p = "''/api''" and w = newWorld]
  by (simp add: demo_eval)

subsection \<open>Rendering and the handlers of results and errors\<close>

lemma render_uncached_reads:
  "templateCache w (view_name view) = None \<Longrightarrow>
   fsReads (snd (render pf srv view d w)) =
   fsReads w @ [Path_join pf (views srv) ((view_name view) @ ''.html'')]"
  by (auto simp: render_def Let_def fill_frame split: option.splits view_read.splits)

lemma handleResult_view_probe:
  assumes "\<not> headerSent (res w)" "templateCache w (view_name p) = None"
  shows "fsReads (handleResult pf srv p (Object v) w) =
     fsReads w @ [Path_join pf (views srv) ((view_name p) @ ''.html'')]"
proof -
  let ?w = "w\<lparr>handled := handled w @ [HandleResult p (Object v)]\<rparr>"
  obtain x w1 where R: "render pf srv p v ?w = (x, w1)" by (cases "render pf srv p v ?w")
  have "fsReads w1 = fsReads w @ [Path_join pf (views srv) ((view_name p) @ ''.html'')]"
    using render_uncached_reads[of ?w p pf srv v] assms(2) R by simp
  then show ?thesis
    using assms(1) unfolding handleResult_def Let_def
    by (simp add: R split: sum.splits option.splits)
qed

lemma fill_fst_state: "fst (fill pf t d w) = fst (fill pf t d w')"
  by (simp add: fill_def split: sum.splits)

lemma render_fst_cong:
  "templateCache w = templateCache w' \<Longrightarrow> views srv = views srv' \<Longrightarrow>
   fst (render pf srv view d w) = fst (render pf srv' view d w')"
  using fill_fst_state
  by (auto simp: render_def Let_def split: option.splits view_read.splits)

lemma render_snd_cache:
  "templateCache w = templateCache w' \<Longrightarrow> views srv = views srv' \<Longrightarrow>
   templateCache (snd (render pf srv view d w)) = templateCache (snd (render pf srv' view d w'))"
  by (auto simp: render_def Let_def fill_frame split: option.splits view_read.splits)

lemma error_view_cong:
  "errorViewsFolder srv = errorViewsFolder srv' \<Longrightarrow> error_view pf srv c = error_view pf srv' c"
  by (simp add: error_view_def)

lemma renderError_res:
  assumes "templateCache w' = templateCache w" "res w' = res w"
  shows "res (renderError pf srv e c m w') =
      (case fst (render pf srv (error_view pf srv c) (error_data e) w) of
           Inl x \<Rightarrow> res w
         | Inr html \<Rightarrow> errorResponse c (or_else html m) (res w))"
proof -
  let ?view = "error_view pf srv c"
  obtain x w1 where R: "render pf srv ?view (error_data e) w' = (x, w1)"
    by (cases "render pf srv ?view (error_data e) w'")
  have x: "fst (render pf srv ?view (error_data e) w) = x"
    using render_fst_cong[of w w' srv srv pf ?view "error_data e"] R assms by simp
  have "res w1 = res w" using render_frame(2)[OF R] assms by simp
  then show ?thesis
    unfolding x renderError_def R by (simp add: respondError_def split: sum.splits)
qed

lemma renderError_uncaught:
  "uncaught (renderError pf srv e c m w) =
      (case fst (render pf srv (error_view pf srv c) (error_data e) w) of
           Inl x \<Rightarrow> Some x
         | Inr html \<Rightarrow> uncaught w)"
proof -
  let ?view = "error_view pf srv c"
  obtain x w1 where R: "render pf srv ?view (error_data e) w = (x, w1)"
    by (cases "render pf srv ?view (error_data e) w")
  have "uncaught w1 = uncaught w" using render_frame(4)[OF R] by simp
  then show ?thesis
    unfolding renderError_def R by (simp add: respondError_def split: sum.splits)
qed

lemma handleError_res:
  "res (handleError pf srv p e w) =
   (if headerSent (res w) then res w
    else case e of
      ExpectedError cls m c xs \<Rightarrow>
        (case fst (render pf srv (error_view pf srv c) (error_data e) w) of
           Inl x \<Rightarrow> res w
         | Inr html \<Rightarrow> errorResponse c (or_else html m) (res w))
    | NotFoundError m q \<Rightarrow>
        (case fst (render pf srv (error_view pf srv (Finite 404)) (error_data e) w) of
           Inl x \<Rightarrow> res w
         | Inr html \<Rightarrow> errorResponse (Finite 404) (or_else html m) (res w))
    | OtherError v \<Rightarrow> errorResponse (Finite 500) ''Server Error'' (res w))"
proof (cases e)
  case (ExpectedError cls m c xs)
  show ?thesis
    unfolding ExpectedError handleError_def Let_def
    by (simp add: renderError_res[where w = w])
next
  case (NotFoundError m q)
  show ?thesis
    unfolding NotFoundError handleError_def Let_def
    by (simp add: renderError_res[where w = w])
next
  case (OtherError v)
  then show ?thesis by (simp add: handleError_def Let_def respondError_def)
qed

lemma handleError_uncaught:
  "uncaught (handleError pf srv p e w) =
   (if headerSent (res w) then uncaught w
    else case e of
      ExpectedError cls m c xs \<Rightarrow>
        (case fst (render pf srv (error_view pf srv c) (error_data e) w) of
           Inl x \<Rightarrow> Some x
         | Inr html \<Rightarrow> uncaught w)
    | NotFoundError m q \<Rightarrow>
        (case fst (render pf srv (error_view pf srv (Finite 404)) (error_data e) w) of
           Inl x \<Rightarrow> Some x
         | Inr html \<Rightarrow> uncaught w)
    | OtherError v \<Rightarrow> uncaught w)"
proof (cases e)
  case (ExpectedError cls m c xs)
  let ?w = "w\<lparr>handled := handled w @ [HandleError p (ExpectedError cls m c xs)]\<rparr>"
  have "fst (render pf srv (error_view pf srv c) (error_data (ExpectedError cls m c xs)) ?w) =
        fst (render pf srv (error_view pf srv c) (error_data (ExpectedError cls m c xs)) w)"
    by (rule render_fst_cong) simp_all
  then show ?thesis
    unfolding ExpectedError handleError_def Let_def
    by (simp add: renderError_uncaught split: sum.splits)
next
  case (NotFoundError m q)
  let ?w = "w\<lparr>handled := handled w @ [HandleError p (NotFoundError m q)]\<rparr>"
  have "fst (render pf srv (error_view pf srv (Finite 404)) (error_data (NotFoundError m q)) ?w) =
        fst (render pf srv (error_view pf srv (Finite 404)) (error_data (NotFoundError m q)) w)"
    by (rule render_fst_cong) simp_all
  then show ?thesis
    unfolding NotFoundError handleError_def Let_def
    by (simp add: renderError_uncaught split: sum.splits)
next
  case (OtherError v)
  then show ?thesis by (simp add: handleError_def Let_def respondError_def)
qed

lemma errorResponse_fields:
  "statusCode (errorResponse code html r) = code"
  "body (errorResponse code html r) = body r @ html"
  "headers (errorResponse code html r) ''Content-Type'' = Some ''text/html''"
  "ended (errorResponse code html r)"
  "headerSent (errorResponse code html r)"
  by (simp_all add: errorResponse_def res_end_def res_write_def setHeader_def)

lemma render_uncached_none_iff:
  "templateCache w (view_name view) = None \<Longrightarrow>
   (fst (render pf srv view d w) = Inr None) =
   (viewFile pf (Path_join pf (views srv) (view_name view @ ''.html'')) = Missing)"
  by (auto simp: render_def Let_def fill_def split: option.splits sum.splits view_read.splits)

lemma handleError_res_cong:
  assumes "templateCache w1 = templateCache w2" "res w1 = res w2" "views srv1 = views srv2"
    "errorViewsFolder srv1 = errorViewsFolder srv2"
  shows "res (handleError pf srv1 p e w1) = res (handleError pf srv2 p e w2)"
  unfolding handleError_res
  using assms render_fst_cong[OF assms(1) assms(3)] error_view_cong[OF assms(4)]
  by (simp split: error_value.splits sum.splits)

lemma last_all_same: "\<forall>v\<in>set T. f v = x \<Longrightarrow> last (x # map f T) = x"
  by (induction T) auto

subsection \<open>The path a handler sees\<close>

text \<open>
  C10. Every handler that is invoked is applied to the request as it is recorded: the
  request of the dispatch with its path replaced. For a prefix-matching route whose exact
  path is not \<open>/\<close> that path is the request path without its first
  \<open>length (path route)\<close> characters, which for a route whose prefix path is its exact
  path plus a slash is the request path with the exact path removed from its front; for
  an exact-path route and for the root mount it is the full request path. What the last
  handler hands back, when it is not the request object, goes to \<open>_handleResult\<close> or
  \<open>_handleError\<close> with the response that handler left. These calls get the full path:
  it is the view name the result is rendered with (the file probed is that of the full
  path), and it is the path the NotFound error carries when every handler declined.
\<close>

theorem handler_sees_path_below_mount:
  "(\<forall>v\<in>set (new_invocations w (handleRequest pf srv req p w)).
      inv_ok srv req p v \<and>
      inv_request v = req\<lparr>req_path := req_path (inv_request v)\<rparr> \<and>
      middleware (routes srv ! inv_index v) (req\<lparr>req_path := req_path (inv_request v)\<rparr>) (inv_before v) =
        (inv_completion v, inv_response v) \<and>
      (extendable (routes srv ! inv_index v) \<and> path (routes srv ! inv_index v) \<noteq> ''/'' \<longrightarrow>
         req_path (inv_request v) = drop (length (path (routes srv ! inv_index v))) p \<and>
         (pathWithEndingSlash (routes srv ! inv_index v) = path (routes srv ! inv_index v) @ ''/'' \<longrightarrow>
            p = path (routes srv ! inv_index v) @ req_path (inv_request v))) \<and>
      (\<not> extendable (routes srv ! inv_index v) \<or> path (routes srv ! inv_index v) = ''/'' \<longrightarrow>
         req_path (inv_request v) = p)) \<and>
   (new_invocations w (handleRequest pf srv req p w) \<noteq> [] \<and>
    \<not> is_pass (inv_completion (last (new_invocations w (handleRequest pf srv req p w)))) \<longrightarrow>
      handleRequest pf srv req p w =
      (case inv_completion (last (new_invocations w (handleRequest pf srv req p w))) of
         Throws error \<Rightarrow>
           handleError pf srv p error
             (w\<lparr>res := inv_response (last (new_invocations w (handleRequest pf srv req p w))),
                invoked := invoked w @ new_invocations w (handleRequest pf srv req p w)\<rparr>)
       | Returns (Plain (Val result)) \<Rightarrow>
           handleResult pf srv p result
             (w\<lparr>res := inv_response (last (new_invocations w (handleRequest pf srv req p w))),
                invoked := invoked w @ new_invocations w (handleRequest pf srv req p w)\<rparr>)
       | Returns (Fulfilled (Val result)) \<Rightarrow>
           handleResult pf srv p result
             (w\<lparr>res := inv_response (last (new_invocations w (handleRequest pf srv req p w))),
                invoked := invoked w @ new_invocations w (handleRequest pf srv req p w)\<rparr>)
       | Returns (Rejected reason) \<Rightarrow>
           handleError pf srv p reason
             (w\<lparr>res := inv_response (last (new_invocations w (handleRequest pf srv req p w))),
                invoked := invoked w @ new_invocations w (handleRequest pf srv req p w)\<rparr>)
       | _ \<Rightarrow>
           w\<lparr>res := inv_response (last (new_invocations w (handleRequest pf srv req p w))),
              invoked := invoked w @ new_invocations w (handleRequest pf srv req p w)\<rparr>)) \<and>
   (\<forall>c\<in>set (new_handled w (handleRequest pf srv req p w)). call_path c = p) \<and>
   ((\<forall>v\<in>set (new_invocations w (handleRequest pf srv req p w)). is_pass (inv_completion v)) \<longrightarrow>
      new_handled w (handleRequest pf srv req p w) =
        [HandleError p (NotFoundError ''Page Not Found'' p)]) \<and>
   (\<not> headerSent (res w') \<and> templateCache w' (view_name p) = None \<longrightarrow>
      fsReads (handleResult pf srv p (Object data) w') =
      fsReads w' @ [Path_join pf (views srv) ((view_name p) @ ''.html'')])"
proof -
  let ?T = "new_invocations w (dispatch_next pf srv req p 0 w)"
  have inv: "\<forall>v\<in>set ?T. inv_ok srv req p v"
    using trace_props[of srv req p 0 w pf] by (simp add: trace_inv_def)
  have seen: "\<forall>v\<in>set ?T.
      inv_ok srv req p v \<and>
      inv_request v = req\<lparr>req_path := req_path (inv_request v)\<rparr> \<and>
      middleware (routes srv ! inv_index v) (req\<lparr>req_path := req_path (inv_request v)\<rparr>) (inv_before v) =
        (inv_completion v, inv_response v) \<and>
      (extendable (routes srv ! inv_index v) \<and> path (routes srv ! inv_index v) \<noteq> ''/'' \<longrightarrow>
         req_path (inv_request v) = drop (length (path (routes srv ! inv_index v))) p \<and>
         (pathWithEndingSlash (routes srv ! inv_index v) = path (routes srv ! inv_index v) @ ''/'' \<longrightarrow>
            p = path (routes srv ! inv_index v) @ req_path (inv_request v))) \<and>
      (\<not> extendable (routes srv ! inv_index v) \<or> path (routes srv ! inv_index v) = ''/'' \<longrightarrow>
         req_path (inv_request v) = p)"
  proof
    fix v assume "v \<in> set ?T"
    then have ok: "inv_ok srv req p v" using inv by blast
    let ?r = "routes srv ! inv_index v"
    have rq: "inv_request v = req\<lparr>req_path := rewritten_path ?r p\<rparr>" using ok by (simp add: inv_ok_def)
    have rp: "req_path (inv_request v) = rewritten_path ?r p" unfolding rq by simp
    have same: "inv_request v = req\<lparr>req_path := req_path (inv_request v)\<rparr>"
      unfolding rp using rq .
    have app: "middleware ?r (req\<lparr>req_path := req_path (inv_request v)\<rparr>) (inv_before v) =
        (inv_completion v, inv_response v)"
      using ok unfolding inv_ok_def rp by auto
    have m: "p = path ?r \<or> (extendable ?r \<and> prefix (pathWithEndingSlash ?r) p)"
      using ok by (auto simp: inv_ok_def skipped_def indexOf_zero_iff)
    have "pathWithEndingSlash ?r = path ?r @ ''/'' \<Longrightarrow> p = path ?r @ drop (length (path ?r)) p"
      using m by (auto simp: prefix_def)
    then have paths: "(extendable ?r \<and> path ?r \<noteq> ''/'' \<longrightarrow>
         req_path (inv_request v) = drop (length (path ?r)) p \<and>
         (pathWithEndingSlash ?r = path ?r @ ''/'' \<longrightarrow> p = path ?r @ req_path (inv_request v))) \<and>
      (\<not> extendable ?r \<or> path ?r = ''/'' \<longrightarrow> req_path (inv_request v) = p)"
      using rp by (auto simp: rewritten_path_def)
    show "inv_ok srv req p v \<and>
      inv_request v = req\<lparr>req_path := req_path (inv_request v)\<rparr> \<and>
      middleware ?r (req\<lparr>req_path := req_path (inv_request v)\<rparr>) (inv_before v) =
        (inv_completion v, inv_response v) \<and>
      (extendable ?r \<and> path ?r \<noteq> ''/'' \<longrightarrow>
         req_path (inv_request v) = drop (length (path ?r)) p \<and>
         (pathWithEndingSlash ?r = path ?r @ ''/'' \<longrightarrow> p = path ?r @ req_path (inv_request v))) \<and>
      (\<not> extendable ?r \<or> path ?r = ''/'' \<longrightarrow> req_path (inv_request v) = p)"
      using ok same app paths by blast
  qed
  have fin: "?T \<noteq> [] \<and> \<not> is_pass (inv_completion (last ?T)) \<longrightarrow>
      dispatch_next pf srv req p 0 w =
      (case inv_completion (last ?T) of
         Throws error \<Rightarrow>
           handleError pf srv p error (w\<lparr>res := inv_response (last ?T), invoked := invoked w @ ?T\<rparr>)
       | Returns (Plain (Val result)) \<Rightarrow>
           handleResult pf srv p result (w\<lparr>res := inv_response (last ?T), invoked := invoked w @ ?T\<rparr>)
       | Returns (Fulfilled (Val result)) \<Rightarrow>
           handleResult pf srv p result (w\<lparr>res := inv_response (last ?T), invoked := invoked w @ ?T\<rparr>)
       | Returns (Rejected reason) \<Rightarrow>
           handleError pf srv p reason (w\<lparr>res := inv_response (last ?T), invoked := invoked w @ ?T\<rparr>)
       | _ \<Rightarrow> w\<lparr>res := inv_response (last ?T), invoked := invoked w @ ?T\<rparr>)"
    using dispatch_stopped[of w pf srv req p 0] by blast
  have paths: "\<forall>c\<in>set (new_handled w (dispatch_next pf srv req p 0 w)). call_path c = p"
    by (rule handled_paths)
  have nf: "(\<forall>v\<in>set ?T. is_pass (inv_completion v)) \<longrightarrow>
      new_handled w (dispatch_next pf srv req p 0 w) = [HandleError p (NotFoundError ''Page Not Found'' p)]"
  proof
    assume all: "\<forall>v\<in>set ?T. is_pass (inv_completion v)"
    show "new_handled w (dispatch_next pf srv req p 0 w) = [HandleError p (NotFoundError ''Page Not Found'' p)]"
      unfolding new_handled_def
      by (subst dispatch_all_pass[OF all]) (simp add: handleError_handled)
  qed
  have probe: "\<not> headerSent (res w') \<and> templateCache w' (view_name p) = None \<longrightarrow>
      fsReads (handleResult pf srv p (Object data) w') =
      fsReads w' @ [Path_join pf (views srv) ((view_name p) @ ''.html'')]"
    using handleResult_view_probe by blast
  show ?thesis unfolding handleRequest_def using seen fin paths nf probe by blast
qed

theorem handler_sees_path_below_mount_witness:
  "map (\<lambda>v. req_path (inv_request v)) (new_invocations newWorld
      (handleRequest demo_platform echo_server get_request ''/build/a.html'' newWorld)) = [''/a.html''] \<and>
   map call_path (new_handled newWorld
      (handleRequest demo_platform echo_server get_request ''/build/a.html'' newWorld)) = [''/build/a.html''] \<and>
   body (res (handleRequest demo_platform echo_server get_request ''/build/a.html'' newWorld)) = ''/a.html'' \<and>
   map (\<lambda>v. req_path (inv_request v)) (new_invocations newWorld
      (handleRequest demo_platform ordered_server get_request ''/api'' newWorld)) = [''/api'', ''/api''] \<and>
   new_handled newWorld (handleRequest demo_platform declining_server get_request ''/missing'' newWorld) =
     [HandleError ''/missing'' (NotFoundError ''Page Not Found'' ''/missing'')] \<and>
   fsReads (handleResult demo_platform server0 ''/api/widget'' (Object JNull) newWorld) =
     [''views/api/widget.html'']"
  using handler_sees_path_below_mount [where pf = demo_platform and srv = echo_server
      and req = get_request and p = "''/build/a.html''" and w = newWorld and w' = newWorld and data = JNull]
    handler_sees_path_below_mount [where pf = demo_platform and srv = ordered_server
      and req = get_request and p = "''/api''" and w = newWorld and w' = newWorld and data = JNull]
    handler_sees_path_below_mount [where pf = demo_platform and srv = declining_server
      and req = get_request and p = "''/missing''" and w = newWorld and w' = newWorld and data = JNull]
    handler_sees_path_below_mount [where pf = demo_platform and srv = server0
      and req = get_request and p = "''/api/widget''" and w = newWorld and w' = newWorld and data = JNull]
  by (simp add: demo_eval echo_server_def echo_path_def declining_server_def inv_ok_def)

subsection \<open>The error response\<close>

text \<open>
  When rendering the error view throws, the error handler writes nothing: the exception
  leaves it before the status code is set. A 404 page can walk from the error through its
  prototypes to \<open>null\<close>, and a page can read below a property of the error that is
  \<open>null\<close>.
\<close>

lemma handleError_render_throws:
  assumes "\<not> headerSent (res w)"
    "fst (render pf srv (error_view pf srv c) (error_data (ExpectedError cls m c xs)) w) = Inl x"
  shows "res (handleError pf srv p (ExpectedError cls m c xs) w) = res w"
    "uncaught (handleError pf srv p (ExpectedError cls m c xs) w) = Some x"
  using assms by (simp_all add: handleError_res handleError_uncaught)

lemma error_view_walk_throws:
  "uncaught (handleRequest chained_platform server0 get_request ''/missing'' newWorld) = Some TypeError"
  "res (handleRequest chained_platform server0 get_request ''/missing'' newWorld) = newResponse"
  "uncaught (handleError chained_platform server0 ''/x''
     (ExpectedError ''ExpectedError'' ''Conflict'' (Finite 409) [(''cause'', JNull)]) newWorld) = Some TypeError"
  "res (handleError chained_platform server0 ''/x''
     (ExpectedError ''ExpectedError'' ''Conflict'' (Finite 409) [(''cause'', JNull)]) newWorld) = newResponse"
  by (simp_all add: demo_eval chained_platform_def chained_views_def)

text \<open>
  C5, as stated, fails where the error view exists and renders to the empty text: the
  view is an empty file, its rendering is the empty string, and the body sent is the
  error's message.
\<close>

theorem empty_error_view_counterexample:
  "viewFile demo_platform (Path_join demo_platform (views server0) ''error/418.html'') = Content [] \<and>
   fst (render demo_platform server0 ''error/418''
          (error_data (ExpectedError ''Teapot'' ''I am a teapot'' (Finite 418) [])) newWorld) = Inr (Some []) \<and>
   body (res (handleError demo_platform server0 ''/tea''
          (ExpectedError ''Teapot'' ''I am a teapot'' (Finite 418) []) newWorld)) = ''I am a teapot''"
  by (simp add: demo_eval)

text \<open>
  C5, amended. When headers are not yet sent: for an expected error, whatever other
  properties it has, and the rendering of the view \<open>errorViewsFolder/statusCode\<close>
  returning (a text or \<open>undefined\<close>), the status code is the error's own (404 for
  NotFound), and the body is that rendering when it is a non-empty text, else the error's
  message; the rendering is \<open>undefined\<close> for a view not yet cached exactly when its
  file does not exist. For any other failure the status code is 500 and the body is the
  text \<open>Server Error\<close>, whatever the failure holds. In all these cases the content type
  is \<open>text/html\<close> and the response is ended.
\<close>

theorem error_response_by_kind:
  "(\<not> headerSent (res w) \<longrightarrow>
     (fst (render pf srv (errorViewsFolder srv @ ''/'' @ Number_toString pf c)
            (error_data (ExpectedError cls m c xs)) w) = Inr html \<longrightarrow>
        statusCode (res (handleError pf srv p (ExpectedError cls m c xs) w)) = c \<and>
        body (res (handleError pf srv p (ExpectedError cls m c xs) w)) = body (res w) @ or_else html m \<and>
        headers (res (handleError pf srv p (ExpectedError cls m c xs) w)) ''Content-Type'' = Some ''text/html'' \<and>
        ended (res (handleError pf srv p (ExpectedError cls m c xs) w)) \<and>
        headerSent (res (handleError pf srv p (ExpectedError cls m c xs) w))) \<and>
     (fst (render pf srv (errorViewsFolder srv @ ''/'' @ Number_toString pf (Finite 404))
            (error_data (NotFoundError m q)) w) = Inr html' \<longrightarrow>
        statusCode (res (handleError pf srv p (NotFoundError m q) w)) = Finite 404 \<and>
        body (res (handleError pf srv p (NotFoundError m q) w)) = body (res w) @ or_else html' m \<and>
        headers (res (handleError pf srv p (NotFoundError m q) w)) ''Content-Type'' = Some ''text/html'' \<and>
        ended (res (handleError pf srv p (NotFoundError m q) w)) \<and>
        headerSent (res (handleError pf srv p (NotFoundError m q) w))) \<and>
     statusCode (res (handleError pf srv p (OtherError detail) w)) = Finite 500 \<and>
     body (res (handleError pf srv p (OtherError detail) w)) = body (res w) @ ''Server Error'' \<and>
     headers (res (handleError pf srv p (OtherError detail) w)) ''Content-Type'' = Some ''text/html'' \<and>
     ended (res (handleError pf srv p (OtherError detail) w)) \<and>
     headerSent (res (handleError pf srv p (OtherError detail) w))) \<and>
   (templateCache w (view_name view) = None \<longrightarrow>
      (fst (render pf srv view d w) = Inr None) =
      (viewFile pf (Path_join pf (views srv) (view_name view @ ''.html'')) = Missing))"
proof -
  have ee: "\<not> headerSent (res w) \<longrightarrow>
     (fst (render pf srv (errorViewsFolder srv @ ''/'' @ Number_toString pf c)
            (error_data (ExpectedError cls m c xs)) w) = Inr html \<longrightarrow>
        statusCode (res (handleError pf srv p (ExpectedError cls m c xs) w)) = c \<and>
        body (res (handleError pf srv p (ExpectedError cls m c xs) w)) = body (res w) @ or_else html m \<and>
        headers (res (handleError pf srv p (ExpectedError cls m c xs) w)) ''Content-Type'' = Some ''text/html'' \<and>
        ended (res (handleError pf srv p (ExpectedError cls m c xs) w)) \<and>
        headerSent (res (handleError pf srv p (ExpectedError cls m c xs) w)))"
    by (simp add: handleError_res errorResponse_fields error_view_def)
  have nf: "\<not> headerSent (res w) \<longrightarrow>
     (fst (render pf srv (errorViewsFolder srv @ ''/'' @ Number_toString pf (Finite 404))
            (error_data (NotFoundError m q)) w) = Inr html' \<longrightarrow>
        statusCode (res (handleError pf srv p (NotFoundError m q) w)) = Finite 404 \<and>
        body (res (handleError pf srv p (NotFoundError m q) w)) = body (res w) @ or_else html' m \<and>
        headers (res (handleError pf srv p (NotFoundError m q) w)) ''Content-Type'' = Some ''text/html'' \<and>
        ended (res (handleError pf srv p (NotFoundError m q) w)) \<and>
        headerSent (res (handleError pf srv p (NotFoundError m q) w)))"
    by (simp add: handleError_res errorResponse_fields error_view_def)
  have other: "\<not> headerSent (res w) \<longrightarrow>
     statusCode (res (handleError pf srv p (OtherError detail) w)) = Finite 500 \<and>
     body (res (handleError pf srv p (OtherError detail) w)) = body (res w) @ ''Server Error'' \<and>
     headers (res (handleError pf srv p (OtherError detail) w)) ''Content-Type'' = Some ''text/html'' \<and>
     ended (res (handleError pf srv p (OtherError detail) w)) \<and>
     headerSent (res (handleError pf srv p (OtherError detail) w))"
    by (simp add: handleError_res errorResponse_fields)
  show ?thesis using ee nf other render_uncached_none_iff by blast
qed

theorem error_response_by_kind_witness:
  "\<not> headerSent (res newWorld) \<and>
   statusCode (res (handleError demo_platform server0 ''/x'' (ExpectedError ''ExpectedError'' ''boom'' (Finite 500) []) newWorld)) =
     Finite 500 \<and>
   body (res (handleError demo_platform server0 ''/x'' (ExpectedError ''ExpectedError'' ''boom'' (Finite 500) []) newWorld)) =
     ''Error 500: boom'' \<and>
   statusCode (res (handleError demo_platform server0 ''/x'' (NotFoundError ''Page Not Found'' ''/x'') newWorld)) =
     Finite 404 \<and>
   body (res (handleError demo_platform server0 ''/x'' (NotFoundError ''Page Not Found'' ''/x'') newWorld)) =
     ''Page Not Found'' \<and>
   body (res (handleError demo_platform server0 ''/x'' (OtherError (JStr ''stack trace'')) newWorld)) =
     ''Server Error'' \<and>
   ended (res (handleError demo_platform server0 ''/x'' (OtherError (JStr ''stack trace'')) newWorld))"
  using error_response_by_kind [where pf = demo_platform and srv = server0 and p = "''/x''"
      and w = newWorld and cls = "''ExpectedError''" and m = "''boom''" and c = "Finite 500" and xs = "[]" and q = "''/x''"
      and html = "Some ''Error 500: boom''" and html' = None
      and detail = "JStr ''stack trace''" and view = "''error/500''" and d = JNull]
    error_response_by_kind [where pf = demo_platform and srv = server0 and p = "''/x''"
      and w = newWorld and cls = "''ExpectedError''" and m = "''Page Not Found''" and c = "Finite 404"
      and xs = "[]" and q = "''/x''"
      and html = None and html' = None
      and detail = "JStr ''stack trace''" and view = "''error/404''" and d = JNull]
  by (simp add: demo_eval)

subsection \<open>Not found\<close>

text \<open>
  C4, as stated, fails for a handler that writes to the response and then hands back the
  request object: dispatch reaches the error path with the NotFound error, finds the
  headers sent and leaves the response as it is, status 200 and not ended, where a
  request that matches no route gets the 404 page.
\<close>

theorem declined_after_writing_counterexample:
  "length (new_invocations newWorld
      (handleRequest demo_platform scribbling_server get_request ''/missing'' newWorld)) = 1 \<and>
   inv_completion (hd (new_invocations newWorld
      (handleRequest demo_platform scribbling_server get_request ''/missing'' newWorld))) = Returns (Plain Req) \<and>
   new_handled newWorld (handleRequest demo_platform scribbling_server get_request ''/missing'' newWorld) =
     [HandleError ''/missing'' (NotFoundError ''Page Not Found'' ''/missing'')] \<and>
   statusCode (res (handleRequest demo_platform scribbling_server get_request ''/missing'' newWorld)) =
     Finite 200 \<and>
   body (res (handleRequest demo_platform scribbling_server get_request ''/missing'' newWorld)) = ''partial'' \<and>
   \<not> ended (res (handleRequest demo_platform scribbling_server get_request ''/missing'' newWorld)) \<and>
   statusCode (res (handleRequest demo_platform server0 get_request ''/missing'' newWorld)) = Finite 404 \<and>
   body (res (handleRequest demo_platform server0 get_request ''/missing'' newWorld)) = ''Page Not Found''"
  by (simp add: demo_eval scribbling_server_def scribble_then_decline_def)

text \<open>
  C4, amended. When no route matches no handler is invoked; and when every handler that
  was invoked declined (none being the case of no match), dispatch calls the error
  handler once, with the NotFound error carrying the requested path. If the headers have
  not been sent by then and the rendering of the 404 error view returns, the response is
  sent with status 404 as \<open>text/html\<close>, its body that rendering or else the text
  \<open>Page Not Found\<close>, and ended; and if the declining handlers left the response as they
  got it, the response is the one of a server with no routes at all.
\<close>

theorem exhausted_routes_give_not_found:
  "((\<forall>j. j < length (routes srv) \<longrightarrow> skipped (routes srv ! j) (req_method req) p) \<longrightarrow>
      new_invocations w (handleRequest pf srv req p w) = []) \<and>
   ((\<forall>v\<in>set (new_invocations w (handleRequest pf srv req p w)). is_pass (inv_completion v)) \<longrightarrow>
      new_handled w (handleRequest pf srv req p w) =
        [HandleError p (NotFoundError ''Page Not Found'' p)] \<and>
      (\<not> headerSent (last (res w # map inv_response (new_invocations w (handleRequest pf srv req p w)))) \<and>
       fst (render pf srv (errorViewsFolder srv @ ''/'' @ Number_toString pf (Finite 404))
              (error_data (NotFoundError ''Page Not Found'' p)) w) = Inr html \<longrightarrow>
         statusCode (res (handleRequest pf srv req p w)) = Finite 404 \<and>
         body (res (handleRequest pf srv req p w)) =
           body (last (res w # map inv_response (new_invocations w (handleRequest pf srv req p w)))) @
           or_else html ''Page Not Found'' \<and>
         headers (res (handleRequest pf srv req p w)) ''Content-Type'' = Some ''text/html'' \<and>
         headerSent (res (handleRequest pf srv req p w)) \<and>
         ended (res (handleRequest pf srv req p w))) \<and>
      ((\<forall>v\<in>set (new_invocations w (handleRequest pf srv req p w)). inv_response v = res w) \<longrightarrow>
         res (handleRequest pf srv req p w) = res (handleRequest pf (srv\<lparr>routes := []\<rparr>) req p w)))"
proof -
  let ?w' = "dispatch_next pf srv req p 0 w"
  let ?T = "new_invocations w ?w'"
  let ?nf = "NotFoundError ''Page Not Found'' p"
  let ?view = "errorViewsFolder srv @ ''/'' @ Number_toString pf (Finite 404)"
  have ok: "\<forall>v\<in>set ?T. inv_ok srv req p v"
    using trace_props[of srv req p 0 w pf] by (simp add: trace_inv_def)
  have none: "(\<forall>j. j < length (routes srv) \<longrightarrow> skipped (routes srv ! j) (req_method req) p) \<longrightarrow> ?T = []"
  proof
    assume sk: "\<forall>j. j < length (routes srv) \<longrightarrow> skipped (routes srv ! j) (req_method req) p"
    have "v \<notin> set ?T" for v
    proof
      assume "v \<in> set ?T"
      then have "inv_ok srv req p v" using ok by blast
      then show False using sk unfolding inv_ok_def by blast
    qed
    then show "?T = []" by (cases ?T) auto
  qed
  have pass: "(\<forall>v\<in>set ?T. is_pass (inv_completion v)) \<longrightarrow>
      new_handled w ?w' = [HandleError p ?nf] \<and>
      (\<not> headerSent (last (res w # map inv_response ?T)) \<and>
       fst (render pf srv ?view (error_data ?nf) w) = Inr html \<longrightarrow>
         statusCode (res ?w') = Finite 404 \<and>
         body (res ?w') = body (last (res w # map inv_response ?T)) @ or_else html ''Page Not Found'' \<and>
         headers (res ?w') ''Content-Type'' = Some ''text/html'' \<and>
         headerSent (res ?w') \<and> ended (res ?w')) \<and>
      ((\<forall>v\<in>set ?T. inv_response v = res w) \<longrightarrow>
         res ?w' = res (dispatch_next pf (srv\<lparr>routes := []\<rparr>) req p 0 w))"
  proof
    assume all: "\<forall>v\<in>set ?T. is_pass (inv_completion v)"
    define r1 where "r1 = last (res w # map inv_response ?T)"
    define w1 where "w1 = w\<lparr>res := r1, invoked := invoked w @ ?T\<rparr>"
    have w1: "res w1 = r1" "templateCache w1 = templateCache w" "handled w1 = handled w"
      by (simp_all add: w1_def)
    have eq: "?w' = handleError pf srv p ?nf w1"
      unfolding w1_def r1_def by (rule dispatch_all_pass[OF all])
    have h: "handled ?w' = handled w @ [HandleError p ?nf]"
      unfolding eq by (simp add: handleError_handled w1)
    have rr: "fst (render pf srv ?view (error_data ?nf) w1) = fst (render pf srv ?view (error_data ?nf) w)"
      by (rule render_fst_cong) (simp_all add: w1)
    have r: "\<not> headerSent r1 \<Longrightarrow> fst (render pf srv ?view (error_data ?nf) w) = Inr html \<Longrightarrow>
        res ?w' = errorResponse (Finite 404) (or_else html ''Page Not Found'') r1"
      unfolding eq using rr by (simp add: handleError_res w1 error_view_def)
    have same: "(\<forall>v\<in>set ?T. inv_response v = res w) \<longrightarrow>
         res ?w' = res (dispatch_next pf (srv\<lparr>routes := []\<rparr>) req p 0 w)"
    proof
      assume "\<forall>v\<in>set ?T. inv_response v = res w"
      then have "r1 = res w" unfolding r1_def by (rule last_all_same)
      then have "res (handleError pf srv p ?nf w1) = res (handleError pf (srv\<lparr>routes := []\<rparr>) p ?nf w)"
        by (intro handleError_res_cong) (simp_all add: w1)
      then show "res ?w' = res (dispatch_next pf (srv\<lparr>routes := []\<rparr>) req p 0 w)"
        unfolding eq by (simp add: dispatch_exhausted)
    qed
    show "new_handled w ?w' = [HandleError p ?nf] \<and>
      (\<not> headerSent (last (res w # map inv_response ?T)) \<and>
       fst (render pf srv ?view (error_data ?nf) w) = Inr html \<longrightarrow>
         statusCode (res ?w') = Finite 404 \<and>
         body (res ?w') = body (last (res w # map inv_response ?T)) @ or_else html ''Page Not Found'' \<and>
         headers (res ?w') ''Content-Type'' = Some ''text/html'' \<and>
         headerSent (res ?w') \<and> ended (res ?w')) \<and>
      ((\<forall>v\<in>set ?T. inv_response v = res w) \<longrightarrow>
         res ?w' = res (dispatch_next pf (srv\<lparr>routes := []\<rparr>) req p 0 w))"
      using h r same unfolding r1_def[symmetric] new_handled_def
      by (simp add: errorResponse_fields)
  qed
  show ?thesis unfolding handleRequest_def using none pass by blast
qed

theorem exhausted_routes_give_not_found_witness:
  "new_invocations newWorld (handleRequest demo_platform server0 get_request ''/missing'' newWorld) = [] \<and>
   map inv_completion (new_invocations newWorld
      (handleRequest demo_platform declining_server get_request ''/missing'' newWorld)) = [Returns (Plain Req)] \<and>
   statusCode (res (handleRequest demo_platform declining_server get_request ''/missing'' newWorld)) =
     Finite 404 \<and>
   body (res (handleRequest demo_platform declining_server get_request ''/missing'' newWorld)) = ''Page Not Found'' \<and>
   ended (res (handleRequest demo_platform declining_server get_request ''/missing'' newWorld)) \<and>
   res (handleRequest demo_platform declining_server get_request ''/missing'' newWorld) =
   res (handleRequest demo_platform server0 get_request ''/missing'' newWorld)"
  using exhausted_routes_give_not_found [where pf = demo_platform and srv = declining_server
      and req = get_request and p = "''/missing''" and w = newWorld and html = None]
    exhausted_routes_give_not_found [where pf = demo_platform and srv = server0
      and req = get_request and p = "''/missing''" and w = newWorld and html = None]
  by (simp add: demo_eval declining_server_def)

subsection \<open>Static files\<close>

lemma settles_not_pass: "\<not> is_pass (Returns (settles s))"
  by (cases s) simp_all

lemma piped_fields:
  "headers (piped delivery r) = headers r"
  "body (piped delivery r) = body r @ fst delivery"
  by (simp_all add: piped_def res_write_def res_end_def split: stream_end.splits)

text \<open>
  C9. A candidate qualifies when \<open>statSync\<close> finds it and it is a regular file. The
  middleware looks at the gzip sibling \<open>filePath.gz\<close> first and at \<open>filePath\<close>
  second and takes the first that qualifies; when neither does it hands back the
  request object and leaves the response alone. For the gzip sibling it sets
  \<open>Content-Encoding: gzip\<close>, for the plain file it leaves that header as it was;
  \<open>Content-Length\<close> is the size of the file taken, and \<open>Content-Type\<close> is the entry of
  the MIME table for the extension of \<open>filePath\<close>, the path without \<open>.gz\<close>, or
  \<open>application/octet-stream\<close> when the table has none. The file taken is the one piped
  into the response, and the promise settles as the stream ends, never with the request
  object.
\<close>

theorem static_prefers_gzip_sibling:
  "(file_size pf c = Some n \<longleftrightarrow>
      (\<exists>st. statSync pf (cand_path c) = Some st \<and> isFile st \<and> stat_size st = n)) \<and>
   (file_size pf \<lparr>cand_path = static_file_path pf dir dflt req @ ''.gz'', gzipped = True\<rparr> = Some gz \<longrightarrow>
      fst (static pf dir dflt req r) =
        Returns (settles (snd (readStream pf (static_file_path pf dir dflt req @ ''.gz'')))) \<and>
      \<not> is_pass (fst (static pf dir dflt req r)) \<and>
      headers (snd (static pf dir dflt req r)) ''Content-Encoding'' = Some ''gzip'' \<and>
      headers (snd (static pf dir dflt req r)) ''Content-Length'' =
        Some (Number_toString pf (Finite (real gz))) \<and>
      headers (snd (static pf dir dflt req r)) ''Content-Type'' =
        Some (case mimeMap pf (Path_extname pf (static_file_path pf dir dflt req)) of
                Some mime \<Rightarrow> mime | None \<Rightarrow> ''application/octet-stream'') \<and>
      body (snd (static pf dir dflt req r)) =
        body r @ fst (readStream pf (static_file_path pf dir dflt req @ ''.gz''))) \<and>
   (file_size pf \<lparr>cand_path = static_file_path pf dir dflt req @ ''.gz'', gzipped = True\<rparr> = None \<and>
    file_size pf \<lparr>cand_path = static_file_path pf dir dflt req, gzipped = False\<rparr> = Some plain \<longrightarrow>
      fst (static pf dir dflt req r) =
        Returns (settles (snd (readStream pf (static_file_path pf dir dflt req)))) \<and>
      \<not> is_pass (fst (static pf dir dflt req r)) \<and>
      headers (snd (static pf dir dflt req r)) ''Content-Encoding'' = headers r ''Content-Encoding'' \<and>
      headers (snd (static pf dir dflt req r)) ''Content-Length'' =
        Some (Number_toString pf (Finite (real plain))) \<and>
      headers (snd (static pf dir dflt req r)) ''Content-Type'' =
        Some (case mimeMap pf (Path_extname pf (static_file_path pf dir dflt req)) of
                Some mime \<Rightarrow> mime | None \<Rightarrow> ''application/octet-stream'') \<and>
      body (snd (static pf dir dflt req r)) =
        body r @ fst (readStream pf (static_file_path pf dir dflt req))) \<and>
   (file_size pf \<lparr>cand_path = static_file_path pf dir dflt req @ ''.gz'', gzipped = True\<rparr> = None \<and>
    file_size pf \<lparr>cand_path = static_file_path pf dir dflt req, gzipped = False\<rparr> = None \<longrightarrow>
      static pf dir dflt req r = (Returns (Fulfilled Req), r) \<and>
      is_pass (fst (static pf dir dflt req r)))"
proof -
  have fs: "file_size pf c = Some n \<longleftrightarrow>
      (\<exists>st. statSync pf (cand_path c) = Some st \<and> isFile st \<and> stat_size st = n)"
    by (auto simp: file_size_def split: option.splits)
  show ?thesis
    using fs
    by (simp add: static_def Let_def setHeader_def piped_fields settles_not_pass)
qed

theorem static_prefers_gzip_sibling_witness:
  "file_size demo_platform \<lparr>cand_path = ''static/a.html.gz'', gzipped = True\<rparr> = Some 64 \<and>
   static_file_path demo_platform ''static'' None (get_request\<lparr>req_path := ''/a.html''\<rparr>) = ''static/a.html'' \<and>
   headers (snd (static demo_platform ''static'' None (get_request\<lparr>req_path := ''/a.html''\<rparr>) newResponse))
     ''Content-Encoding'' = Some ''gzip'' \<and>
   headers (snd (static demo_platform ''static'' None (get_request\<lparr>req_path := ''/a.html''\<rparr>) newResponse))
     ''Content-Length'' = Some ''64'' \<and>
   headers (snd (static demo_platform ''static'' None (get_request\<lparr>req_path := ''/a.html''\<rparr>) newResponse))
     ''Content-Type'' = Some ''text/html'' \<and>
   body (snd (static demo_platform ''static'' None (get_request\<lparr>req_path := ''/a.html''\<rparr>) newResponse)) =
     ''bytes of static/a.html.gz'' \<and>
   fst (static demo_platform ''static'' None (get_request\<lparr>req_path := ''/a.html''\<rparr>) newResponse) =
     Returns (Fulfilled (Val (Object JUndefined))) \<and>
   headers (snd (static demo_platform ''static'' None (get_request\<lparr>req_path := ''/2.unknown''\<rparr>) newResponse))
     ''Content-Encoding'' = None \<and>
   headers (snd (static demo_platform ''static'' None (get_request\<lparr>req_path := ''/2.unknown''\<rparr>) newResponse))
     ''Content-Length'' = Some ''7'' \<and>
   headers (snd (static demo_platform ''static'' None (get_request\<lparr>req_path := ''/2.unknown''\<rparr>) newResponse))
     ''Content-Type'' = Some ''application/octet-stream'' \<and>
   static demo_platform ''static'' None (get_request\<lparr>req_path := ''/''\<rparr>) newResponse =
     (Returns (Fulfilled Req), newResponse)"
  using static_prefers_gzip_sibling [where pf = demo_platform and dir = "''static''" and dflt = None
      and req = "get_request\<lparr>req_path := ''/a.html''\<rparr>" and r = newResponse and gz = 64 and plain = 120
      and c = "\<lparr>cand_path = ''static/a.html.gz'', gzipped = True\<rparr>" and n = 64]
    static_prefers_gzip_sibling [where pf = demo_platform and dir = "''static''" and dflt = None
      and req = "get_request\<lparr>req_path := ''/2.unknown''\<rparr>" and r = newResponse and gz = 0 and plain = 7
      and c = "\<lparr>cand_path = ''static/2.unknown'', gzipped = False\<rparr>" and n = 7]
    static_prefers_gzip_sibling [where pf = demo_platform and dir = "''static''" and dflt = None
      and req = "get_request\<lparr>req_path := ''/''\<rparr>" and r = newResponse and gz = 0 and plain = 0
      and c = "\<lparr>cand_path = ''static/index.html'', gzipped = False\<rparr>" and n = 0]
  by (simp add: demo_eval static_def static_file_path_def default_document_def file_size_def piped_def)

subsection \<open>Placeholder substitution\<close>

text \<open>
  A token whose walk meets \<open>undefined\<close> is given back as it stands, and a token whose
  walk reaches a value is replaced by that value as a string; a walk that comes to
  \<open>null\<close> and goes on throws, whatever the platform.
\<close>

lemma substitute_absent:
  "walk pf data (split_dot expression) = Inr None \<Longrightarrow> substitute pf data text expression = Inr text"
  by (simp add: substitute_def)

lemma substitute_reached:
  "walk pf data (split_dot expression) = Inr (Some node) \<Longrightarrow>
   substitute pf data text expression = ToString pf node"
  by (simp add: substitute_def)

lemma walk_through_null:
  "map_of kvs k = Some JNull \<Longrightarrow> walk pf (JObj pr kvs) (k # k' # ks) = Inl TypeError"
  by simp

lemma render_examples:
  "fst (render demo_platform server0 ''/widget''
     (JObj (Prototype ''Object'') [(''user'', JObj (Prototype ''Object'') [(''name'', JStr ''Ann'')])])
     newWorld) = Inr (Some ''Hello Ann!'')"
  "fst (render demo_platform server0 ''/widget'' (JObj (Prototype ''Object'') []) newWorld) =
     Inr (Some ''Hello {user.name}!'')"
  "fst (render demo_platform server0 ''/widget'' JUndefined newWorld) = Inr (Some ''Hello {user.name}!'')"
  by (simp_all add: demo_eval)

text \<open>A token reads what the data inherits as well as what it holds.\<close>

lemma inherited_examples:
  "substitute demo_platform (JObj (Prototype ''Object'') [(''sn'', JStr ''abc'')]) ''{sn.length}''
     ''sn.length'' = Inr ''3''"
  "substitute demo_platform (JObj (Prototype ''Object'') []) ''{constructor.name}''
     ''constructor.name'' = Inr ''Object''"
  "substitute demo_platform (JObj NoPrototype []) ''{constructor.name}''
     ''constructor.name'' = Inr ''{constructor.name}''"
  "substitute demo_platform (JObj (Prototype ''Object'') []) ''{__proto__.__proto__.x}''
     ''__proto__.__proto__.x'' = Inl TypeError"
  by (simp_all add: demo_eval)

text \<open>
  C7 says that each token is replaced by the value its dotted path leads to, and that a
  token whose path leads nowhere is left as it stands, no error raised, for every data
  value. The code gives up on a path only at \<open>undefined\<close>: where a step yields
  \<open>null\<close> and the path goes on, reading the next key throws a TypeError. With the data
  \<open>{user: null}\<close> the template \<open>Hello {user.name}!\<close> is not rendered at all.
\<close>

theorem null_on_the_walk_throws:
  "walk demo_platform (JObj (Prototype ''Object'') [(''user'', JNull)]) (split_dot ''user.name'') =
     Inl TypeError \<and>
   fst (render demo_platform server0 ''/widget'' (JObj (Prototype ''Object'') [(''user'', JNull)]) newWorld) =
     Inl TypeError"
  by (simp add: demo_eval)

subsection \<open>The template cache\<close>

text \<open>
  Once a rendering of a view has got past the reading of the file, a second rendering
  never reads the file system, whatever the file system holds by then, and gives what
  the first one gave unless that was the empty text.
\<close>

lemma js_get_files: "js_get (pf\<lparr>viewFile := vf\<rparr>) v k = js_get pf v k"
  by (cases v) (simp_all split: option.splits proto.splits)

lemma walk_files: "walk (pf\<lparr>viewFile := vf\<rparr>) v ks = walk pf v ks"
  by (induction ks arbitrary: v) (simp_all add: js_get_files split: sum.splits jsval.splits)

lemma ToString_files: "ToString (pf\<lparr>viewFile := vf\<rparr>) v = ToString pf v"
  by (cases v) simp_all

lemma substitute_files: "substitute (pf\<lparr>viewFile := vf\<rparr>) = substitute pf"
  by (intro ext) (simp add: substitute_def walk_files ToString_files split: sum.splits option.splits)

lemma fill_fst:
  "fst (fill pf t d w) =
   (case replace_tokens (substitute pf (if truthy d then d else JObj NoPrototype [])) t of
      Inl e \<Rightarrow> Inl e | Inr html \<Rightarrow> Inr (Some html))"
  by (simp add: fill_def split: sum.splits)

lemma fill_files: "fst (fill (pf\<lparr>viewFile := vf\<rparr>) t d w) = fst (fill pf t d w')"
  by (simp add: fill_fst substitute_files)

lemma render_cached_state:
  "templateCache w (view_name view) \<noteq> None \<Longrightarrow> snd (render pf srv view d w) = w"
  by (auto simp: render_def Let_def fill_frame split: option.splits)

lemma render_caches:
  "\<forall>e. viewFile pf (Path_join pf (views srv) (view_name view @ ''.html'')) \<noteq> ReadFails e \<Longrightarrow>
   templateCache (snd (render pf srv view d w)) (view_name view) \<noteq> None"
  by (auto simp: render_def Let_def fill_frame split: option.splits view_read.splits)

lemma render_second_no_probe:
  "\<forall>e. viewFile pf1 (Path_join pf1 (views srv) (view_name view @ ''.html'')) \<noteq> ReadFails e \<Longrightarrow>
   fsReads (snd (render pf2 srv view d2 (snd (render pf1 srv view d1 w)))) =
   fsReads (snd (render pf1 srv view d1 w))"
  by (simp add: render_cached_state[OF render_caches])

lemma render_cached_result:
  "templateCache w (view_name view) = Some cached \<Longrightarrow>
   fst (render pf srv view d w) =
   (case cached of None \<Rightarrow> Inr None
    | Some template \<Rightarrow> if template = [] then Inr None else fst (fill pf template d w))"
  by (simp add: render_def Let_def split: option.splits)

lemma render_uncached_result:
  "templateCache w (view_name view) = None \<Longrightarrow>
   fst (render pf srv view d w) =
   (case viewFile pf (Path_join pf (views srv) (view_name view @ ''.html'')) of
      Missing \<Rightarrow> Inr None | Content template \<Rightarrow> fst (fill pf template d w)
    | ReadFails e \<Rightarrow> Inl (Thrown e)) \<and>
   templateCache (snd (render pf srv view d w)) (view_name view) =
   (case viewFile pf (Path_join pf (views srv) (view_name view @ ''.html'')) of
      Missing \<Rightarrow> Some None | Content template \<Rightarrow> Some (Some template)
    | ReadFails e \<Rightarrow> None)"
  by (simp add: render_def Let_def fill_frame fill_fst split: option.splits view_read.splits)

lemma render_second_same:
  assumes "fst (render pf srv view d w) \<noteq> Inr (Some [])"
    "\<forall>e. viewFile pf (Path_join pf (views srv) (view_name view @ ''.html'')) \<noteq> ReadFails e"
  shows "fst (render (pf\<lparr>viewFile := later\<rparr>) srv view d (snd (render pf srv view d w))) =
     fst (render pf srv view d w)"
proof (cases "templateCache w (view_name view)")
  case (Some cached)
  then have "snd (render pf srv view d w) = w" by (simp add: render_cached_state)
  then show ?thesis
    using Some by (simp add: render_cached_result fill_files[where w' = w] split: option.splits)
next
  case None
  let ?f = "viewFile pf (Path_join pf (views srv) (view_name view @ ''.html''))"
  let ?w1 = "snd (render pf srv view d w)"
  have first: "fst (render pf srv view d w) =
      (case ?f of Missing \<Rightarrow> Inr None | Content template \<Rightarrow> fst (fill pf template d w)
       | ReadFails e \<Rightarrow> Inl (Thrown e))"
    and cache: "templateCache ?w1 (view_name view) =
      (case ?f of Missing \<Rightarrow> Some None | Content template \<Rightarrow> Some (Some template)
       | ReadFails e \<Rightarrow> None)"
    using render_uncached_result[OF None] by simp_all
  show ?thesis
  proof (cases ?f)
    case Missing
    then have "templateCache ?w1 (view_name view) = Some None" using cache by simp
    then have "fst (render (pf\<lparr>viewFile := later\<rparr>) srv view d ?w1) = Inr None"
      by (simp add: render_cached_result)
    then show ?thesis using first Missing by simp
  next
    case (Content template)
    have ne: "template \<noteq> []"
    proof
      assume "template = []"
      then have "fst (render pf srv view d w) = Inr (Some [])"
        using first Content by (simp add: fill_def)
      then show False using assms(1) by simp
    qed
    have "templateCache ?w1 (view_name view) = Some (Some template)" using cache Content by simp
    then have "fst (render (pf\<lparr>viewFile := later\<rparr>) srv view d ?w1) =
        fst (fill (pf\<lparr>viewFile := later\<rparr>) template d ?w1)"
      using ne by (simp add: render_cached_result)
    then show ?thesis using first Content by (simp add: fill_files[where w' = w])
  next
    case (ReadFails e)
    then show ?thesis using assms(2) by simp
  qed
qed

text \<open>
  C8 says that rendering a view twice with the same data gives the same output. For a
  view whose file is empty the first rendering is the empty text, and the second, which
  reads the cache, is \<open>undefined\<close>: the cache test \<open>!template\<close> takes the cached empty
  string for a miss.
\<close>

theorem empty_view_rendered_twice:
  "viewFile demo_platform ''views/blank.html'' = Content [] \<and>
   fst (render demo_platform server0 ''/blank'' (JObj (Prototype ''Object'') [(''sn'', JStr ''X1'')])
     newWorld) = Inr (Some []) \<and>
   fst (render demo_platform server0 ''/blank'' (JObj (Prototype ''Object'') [(''sn'', JStr ''X1'')])
     (snd (render demo_platform server0 ''/blank'' (JObj (Prototype ''Object'') [(''sn'', JStr ''X1'')])
        newWorld))) = Inr None"
  by (simp add: demo_eval)

subsection \<open>The result serializer\<close>

text \<open>
  What \<open>_handleResult\<close> leaves in the response: nothing of its own when the headers
  are sent or the value is a Response (its \<open>applyTo\<close> does everything); the rendered
  text as \<open>text/html\<close> when rendering yields one; the JSON text as \<open>application/json\<close>
  when rendering yields \<open>undefined\<close> and the JSON text is non-empty, no body when
  there is none; the response is ended in these cases, and left untouched when rendering
  or the serialization throws.
\<close>

lemma handleResult_res:
  "res (handleResult pf srv p result w) =
   (if headerSent (res w) then res w
    else case result of
      Response applyTo \<Rightarrow> applyTo (res w)
    | Object v \<Rightarrow>
        (case fst (render pf srv p v w) of
           Inl e \<Rightarrow> res w
         | Inr (Some html) \<Rightarrow> res_end (res_write html (setHeader ''Content-Type'' ''text/html'' (res w)))
         | Inr None \<Rightarrow>
             (case JSON_stringify pf v of
                Inl e \<Rightarrow> res w
              | Inr None \<Rightarrow> res_end (res w)
              | Inr (Some json) \<Rightarrow>
                  if json \<noteq> [] then
                    res_end (res_write json (setHeader ''Content-Type'' ''application/json'' (res w)))
                  else res_end (res w))))"
proof (cases result)
  case (Response f)
  then show ?thesis by (simp add: handleResult_def Let_def)
next
  case (Object v)
  let ?w = "w\<lparr>handled := handled w @ [HandleResult p (Object v)]\<rparr>"
  obtain x w1 where R: "render pf srv p v ?w = (x, w1)" by (cases "render pf srv p v ?w")
  have x: "fst (render pf srv p v w) = x"
    using render_fst_cong[of w ?w srv srv pf p v] R by simp
  have r: "res w1 = res w" using render_frame(2)[OF R] by simp
  show ?thesis
  proof (cases x)
    case (Inl e)
    then show ?thesis using r x by (simp add: Object handleResult_def Let_def R)
  next
    case (Inr html)
    then show ?thesis using r x
      by (cases html; cases "JSON_stringify pf v")
         (simp_all add: Object handleResult_def Let_def R split: option.splits)
  qed
qed

lemma json_fallback_example:
  "headers (res (handleResult demo_platform server0 ''/info''
     (Object (JObj (Prototype ''Object'') [(''sn'', JStr ''X1''), (''time'', JNum (Finite 123))]))
     newWorld)) ''Content-Type'' = Some ''application/json''"
  "body (res (handleResult demo_platform server0 ''/info''
     (Object (JObj (Prototype ''Object'') [(''sn'', JStr ''X1''), (''time'', JNum (Finite 123))]))
     newWorld)) =
   ''{'' @ [CHR 0x22] @ ''sn'' @ [CHR 0x22] @ '':'' @ [CHR 0x22] @ ''X1'' @ [CHR 0x22] @ '','' @
   [CHR 0x22] @ ''time'' @ [CHR 0x22] @ '':123}''"
  "ended (res (handleResult demo_platform server0 ''/info''
     (Object (JObj (Prototype ''Object'') [(''sn'', JStr ''X1''), (''time'', JNum (Finite 123))]))
     newWorld))"
  by (simp_all add: demo_eval)

text \<open>
  C6 says that for a value that is not a Response the rendered text is written as
  \<open>text/html\<close> when a template exists for the path, and that the response is ended in
  every such case. Neither holds throughout, by the two defects above: with the data
  \<open>{user: null}\<close> and the template \<open>Hello {user.name}!\<close> rendering throws, nothing is
  written and the response is not ended; and for a view whose file is empty the first
  result is sent as \<open>text/html\<close>, the second as JSON.
\<close>

theorem serializer_fails_on_null_and_blank_template:
  "uncaught (handleRequest demo_platform widget_server get_request ''/widget'' newWorld) =
     Some TypeError \<and>
   res (handleRequest demo_platform widget_server get_request ''/widget'' newWorld) = newResponse \<and>
   uncaught (handleResult demo_platform server0 ''/widget''
     (Object (JObj (Prototype ''Object'') [(''user'', JNull)])) newWorld) = Some TypeError \<and>
   res (handleResult demo_platform server0 ''/widget''
     (Object (JObj (Prototype ''Object'') [(''user'', JNull)])) newWorld) = newResponse \<and>
   \<not> ended newResponse \<and>
   headers (res (handleResult demo_platform server0 ''/blank''
     (Object (JObj (Prototype ''Object'') [(''sn'', JStr ''X1'')])) newWorld))
     ''Content-Type'' = Some ''text/html'' \<and>
   headers (res (handleResult demo_platform server0 ''/blank''
     (Object (JObj (Prototype ''Object'') [(''sn'', JStr ''X1'')]))
       ((handleResult demo_platform server0 ''/blank''
          (Object (JObj (Prototype ''Object'') [(''sn'', JStr ''X1'')])) newWorld)
          \<lparr>res := newResponse\<rparr>)))
     ''Content-Type'' = Some ''application/json''"
  by (simp add: demo_eval widget_server_def null_user_def)

end
